theory Spec2Isabelle
  imports Complex_Main "HOL-Library.Char_ord" "HOL-Library.List_Lexorder"
begin

section \<open>Arrays, errors and the library operations the code calls\<close>

text \<open>
  A numpy array is its shape and its elements in row-major order. Every array the code
  builds satisfies \<open>length (flat a) = prod_list (shape a)\<close>. A pandas Series is a
  list, a null entry of a Series is \<open>None\<close>. A label code held in a float array is an
  \<open>int option\<close>, \<open>None\<close> standing for NaN: the only numbers such an array
  receives are integer codes.
\<close>

record 'a ndarray =
  shape :: "nat list"
  flat :: "'a list"

definition well_shaped :: "'a ndarray \<Rightarrow> bool" where
  "well_shaped a = (length (flat a) = prod_list (shape a))"

text \<open>The one-dimensional array holding a list.\<close>

definition array1 :: "'a list \<Rightarrow> 'a ndarray" where
  "array1 xs = \<lparr>shape = [length xs], flat = xs\<rparr>"

datatype error = ProgrammingError string | IndexError | ValueError

definition and_then :: "error + 'a \<Rightarrow> ('a \<Rightarrow> error + 'b) \<Rightarrow> error + 'b" where
  "and_then m f = (case m of Inl e \<Rightarrow> Inl e | Inr v \<Rightarrow> f v)"

text \<open>\<^verbatim>\<open>np.unique\<close>: the distinct elements, ascending.\<close>

definition np_unique :: "'a::linorder list \<Rightarrow> 'a list" where
  "np_unique xs = sort (remdups xs)"

text \<open>
  \<^verbatim>\<open>np.argwhere(categories == samples.reshape(-1, 1))\<close>: the pairs (sample position,
  category position) at which the comparison holds, in row-major order.
\<close>

definition argwhere_eq :: "'a list \<Rightarrow> 'a list \<Rightarrow> (nat \<times> nat) list" where
  "argwhere_eq cats xs =
     concat (map (\<lambda>i. map (Pair i) (filter (\<lambda>j. cats ! j = xs ! i) [0..<length cats]))
       [0..<length xs])"

text \<open>
  \<^verbatim>\<open>labels = np.zeros((size,), dtype=int); labels[arr[:, 0]] = arr[:, 1]\<close>: the writes
  are done in the order of the pairs, so a later pair for the same position wins.
\<close>

definition scatter_labels :: "nat \<Rightarrow> (nat \<times> nat) list \<Rightarrow> int list" where
  "scatter_labels n arr = fold (\<lambda>(i, j) ls. ls[i := int j]) arr (replicate n 0)"

text \<open>\<^verbatim>\<open>np.eye(n, dtype=np.uint8)\<close>, as its list of rows.\<close>

definition eye :: "nat \<Rightarrow> nat list list" where
  "eye n = map (\<lambda>i. map (\<lambda>j. if i = j then 1 else 0) [0..<n]) [0..<n]"

text \<open>
  \<^verbatim>\<open>a[labels]\<close> for an integer array \<open>labels\<close>: the entries of \<open>a\<close> along its first
  axis at these positions. A negative position counts from the end; a position outside
  \<open>[-len, len)\<close> raises IndexError.
\<close>

definition index_rows :: "'b list \<Rightarrow> int list \<Rightarrow> error + 'b list" where
  "index_rows a ls =
     (if list_all (\<lambda>l. - int (length a) \<le> l \<and> l < int (length a)) ls
      then Inr (map (\<lambda>l. a ! nat (if l < 0 then l + int (length a) else l)) ls)
      else Inl IndexError)"

text \<open>
  The entries of an array along all axes but the last: for shape \<open>s @ [n]\<close> the
  \<open>prod_list s\<close> rows of length \<open>n\<close>. A 0-dimensional array counts as one row of
  one element, as numpy's axis handling has it.
\<close>

definition last_axis :: "'b ndarray \<Rightarrow> nat" where
  "last_axis a = (if shape a = [] then 1 else last (shape a))"

definition rows_of :: "'b ndarray \<Rightarrow> 'b list list" where
  "rows_of a =
     map (\<lambda>i. take (last_axis a) (drop (i * last_axis a) (flat a)))
       [0..<prod_list (butlast (shape a))]"

text \<open>
  \<^verbatim>\<open>np.argmax\<close> of one non-empty row: a scan that moves to a later position only for a
  strictly larger entry, so the first occurrence of the maximum is returned.
\<close>

fun argmax_from :: "'b::linorder \<Rightarrow> nat \<Rightarrow> nat \<Rightarrow> 'b list \<Rightarrow> nat" where
  "argmax_from best pos i [] = pos"
| "argmax_from best pos i (x # xs) =
     (if best < x then argmax_from x i (Suc i) xs else argmax_from best pos (Suc i) xs)"

fun argmax_row :: "'b::linorder list \<Rightarrow> nat" where
  "argmax_row [] = 0"
| "argmax_row (x # xs) = argmax_from x 0 1 xs"

text \<open>
  \<^verbatim>\<open>np.argmax(encoded, axis=-1)\<close>: numpy raises ValueError when the last axis has
  length 0 (whatever the other axes are), so \<open>argmax_row []\<close> is never used.
\<close>

definition np_argmax :: "'b::linorder ndarray \<Rightarrow> error + int ndarray" where
  "np_argmax a =
     (if last_axis a = 0 then Inl ValueError
      else Inr \<lparr>shape = butlast (shape a), flat = map (\<lambda>r. int (argmax_row r)) (rows_of a)\<rparr>)"

text \<open>\<^verbatim>\<open>a[mask]\<close> for a boolean mask over the first axis.\<close>

definition boolean_index :: "'b list \<Rightarrow> bool list \<Rightarrow> 'b list" where
  "boolean_index xs msk = map fst (filter snd (zip xs msk))"

text \<open>
  \<^verbatim>\<open>array[mask] = values\<close>: the entries at the True positions are replaced, in order.
  numpy wants a mask as long as the array, and as many values as True positions or one
  value for all of them.
\<close>

fun fill_mask :: "'b list \<Rightarrow> bool list \<Rightarrow> 'b list \<Rightarrow> 'b list" where
  "fill_mask (a # as) (True # ms) (v # vs) = v # fill_mask as ms vs"
| "fill_mask (a # as) (False # ms) vs = a # fill_mask as ms vs"
| "fill_mask as ms vs = as"

definition put_mask :: "'b list \<Rightarrow> bool list \<Rightarrow> 'b list \<Rightarrow> error + 'b list" where
  "put_mask arr msk vals =
     (let k = length (filter id msk) in
      if length msk \<noteq> length arr then Inl IndexError
      else if length vals = k then Inr (fill_mask arr msk vals)
      else if length vals = 1 then Inr (fill_mask arr msk (replicate k (hd vals)))
      else Inl ValueError)"

text \<open>
  \<^verbatim>\<open>_mask_assign(shape, mask, values, init)\<close>: \<open>m\<close> is the number of entries of the
  new array along the masked axes, \<open>init\<close> one such entry (a number, or a row of them).
\<close>

definition mask_assign :: "nat \<Rightarrow> bool list \<Rightarrow> 'b list \<Rightarrow> 'b \<Rightarrow> error + 'b list" where
  "mask_assign m msk vals init = put_mask (replicate m init) msk vals"

section \<open>OneHotEncoder\<close>

text \<open>
  The three encoder classes have one attribute, \<^verbatim>\<open>_categories\<close>, \<^verbatim>\<open>None\<close> until
  \<^verbatim>\<open>fit\<close> stores an array.
\<close>

record 'a encoder =
  priv_categories :: "'a list option"

definition encoder_init :: "'a encoder" where
  "encoder_init = \<lparr>priv_categories = None\<rparr>"

definition categories :: "'a encoder \<Rightarrow> error + 'a list" where
  "categories enc =
     (case priv_categories enc of
        None \<Rightarrow> Inl (ProgrammingError ''Encoder not fitted!'')
      | Some c \<Rightarrow> Inr c)"

definition n_categories :: "'a encoder \<Rightarrow> error + nat" where
  "n_categories enc = and_then (categories enc) (\<lambda>c. Inr (length c))"

definition OneHotEncoder_fit :: "'a::linorder encoder \<Rightarrow> 'a ndarray \<Rightarrow> 'a encoder" where
  "OneHotEncoder_fit enc samples = enc\<lparr>priv_categories := Some (np_unique (flat samples))\<rparr>"

definition OneHotEncoder_transform_to_labels ::
  "'a encoder \<Rightarrow> 'a ndarray \<Rightarrow> error + int ndarray" where
  "OneHotEncoder_transform_to_labels enc samples =
     and_then (categories enc) (\<lambda>cats.
       Inr \<lparr>shape = shape samples,
            flat = scatter_labels (length (flat samples)) (argwhere_eq cats (flat samples))\<rparr>)"

definition OneHotEncoder_transform_from_labels ::
  "'a encoder \<Rightarrow> int ndarray \<Rightarrow> error + nat ndarray" where
  "OneHotEncoder_transform_from_labels enc labels =
     and_then (n_categories enc) (\<lambda>n.
       and_then (index_rows (eye n) (flat labels)) (\<lambda>rows.
         Inr \<lparr>shape = shape labels @ [n], flat = concat rows\<rparr>))"

definition OneHotEncoder_transform :: "'a encoder \<Rightarrow> 'a ndarray \<Rightarrow> error + nat ndarray" where
  "OneHotEncoder_transform enc samples =
     and_then (OneHotEncoder_transform_to_labels enc samples)
       (OneHotEncoder_transform_from_labels enc)"

definition OneHotEncoder_inverse_from_labels ::
  "'a encoder \<Rightarrow> int ndarray \<Rightarrow> error + 'a ndarray" where
  "OneHotEncoder_inverse_from_labels enc labels =
     and_then (categories enc) (\<lambda>cats.
       and_then (index_rows cats (flat labels)) (\<lambda>vs.
         Inr \<lparr>shape = shape labels, flat = vs\<rparr>))"

definition OneHotEncoder_inverse_to_labels :: "'b::linorder ndarray \<Rightarrow> error + int ndarray" where
  "OneHotEncoder_inverse_to_labels encoded = np_argmax encoded"

definition OneHotEncoder_inverse :: "'a encoder \<Rightarrow> nat ndarray \<Rightarrow> error + 'a ndarray" where
  "OneHotEncoder_inverse enc encoded =
     and_then (OneHotEncoder_inverse_to_labels encoded)
       (OneHotEncoder_inverse_from_labels enc)"

section \<open>NanHotEncoder\<close>

text \<open>
  A pandas DataFrame: its column labels and its data. \<^verbatim>\<open>pd.DataFrame(data, columns)\<close>
  takes two-dimensional data with one label per column; one-dimensional data is a
  single column; anything else raises ValueError.
\<close>

record 'a DataFrame =
  df_columns :: "'a list"
  df_data :: "nat ndarray"

definition pd_DataFrame :: "nat ndarray \<Rightarrow> 'a list \<Rightarrow> error + 'a DataFrame" where
  "pd_DataFrame dat cols =
     (case shape dat of
        [m, n] \<Rightarrow>
          if n = length cols then Inr \<lparr>df_columns = cols, df_data = dat\<rparr> else Inl ValueError
      | [m] \<Rightarrow>
          if length cols = 1
          then Inr \<lparr>df_columns = cols, df_data = \<lparr>shape = [m, 1], flat = flat dat\<rparr>\<rparr>
          else Inl ValueError
      | _ \<Rightarrow> Inl ValueError)"

definition isnull :: "'b option \<Rightarrow> bool" where
  "isnull x = (x = None)"

definition isin :: "'a list \<Rightarrow> 'a option \<Rightarrow> bool" where
  "isin cats s = (case s of None \<Rightarrow> False | Some x \<Rightarrow> x \<in> set cats)"

text \<open>The entries of a Series or array that are not null, in order.\<close>

definition dropna :: "'b option list \<Rightarrow> 'b list" where
  "dropna xs = map the (boolean_index xs (map (\<lambda>x. \<not> isnull x) xs))"

definition NanHotEncoder_fit :: "'a::linorder encoder \<Rightarrow> 'a option ndarray \<Rightarrow> 'a encoder" where
  "NanHotEncoder_fit enc samples = OneHotEncoder_fit enc (array1 (dropna (flat samples)))"

definition NanHotEncoder_transform_from_labels ::
  "'a encoder \<Rightarrow> int option ndarray \<Rightarrow> error + 'a DataFrame" where
  "NanHotEncoder_transform_from_labels enc labels =
     (if length (shape labels) > 1
      then Inl (ProgrammingError ''Encoder only accepts 1-dimensional data.'')
      else
        let nans = map isnull (flat labels) in
        and_then (OneHotEncoder_transform_from_labels enc
                    (array1 (map the (boolean_index (flat labels) (map Not nans))))) (\<lambda>encoded.
        and_then (n_categories enc) (\<lambda>n.
        and_then (mask_assign (prod_list (shape labels)) (map Not nans) (rows_of encoded)
                    (replicate n 0)) (\<lambda>rows.
        and_then (categories enc) (\<lambda>cats.
          pd_DataFrame \<lparr>shape = shape labels @ [n], flat = concat rows\<rparr> cats)))))"

text \<open>
  The method the class spells \<^verbatim>\<open>inverse_to_lables\<close>. No other code of the repository
  calls it under that name.
\<close>

definition NanHotEncoder_inverse_to_lables :: "nat ndarray \<Rightarrow> error + int option ndarray" where
  "NanHotEncoder_inverse_to_lables encoded =
     (let nans = map (\<lambda>r. sum_list r = 0) (rows_of encoded);
          kept = boolean_index (rows_of encoded) (map Not nans) in
      and_then (OneHotEncoder_inverse_to_labels
                  \<lparr>shape = [length kept, last_axis encoded], flat = concat kept\<rparr>) (\<lambda>inverted.
      and_then (mask_assign (prod_list (butlast (shape encoded))) (map Not nans)
                  (map Some (flat inverted)) None) (\<lambda>filled.
        Inr \<lparr>shape = butlast (shape encoded), flat = filled\<rparr>)))"

definition NanHotEncoder_transform_to_labels ::
  "'a encoder \<Rightarrow> 'a option list \<Rightarrow> error + int option ndarray" where
  "NanHotEncoder_transform_to_labels enc samples =
     and_then (categories enc) (\<lambda>cats.
       let msk = map (\<lambda>s. isnull s \<or> \<not> isin cats s) samples in
       and_then (OneHotEncoder_transform_to_labels enc
                   (array1 (map the (boolean_index samples (map Not msk))))) (\<lambda>labels.
       and_then (mask_assign (length samples) (map Not msk) (map Some (flat labels)) None)
         (\<lambda>filled. Inr \<lparr>shape = [length samples], flat = filled\<rparr>)))"

text \<open>
  \<^verbatim>\<open>series[~series.isnull()] = inverted\<close> writes a category at every position that
  held a label; the positions left are the null ones.
\<close>

definition NanHotEncoder_inverse_from_labels ::
  "'a encoder \<Rightarrow> int option ndarray \<Rightarrow> error + 'a option list" where
  "NanHotEncoder_inverse_from_labels enc labels =
     (let series = flat labels in
      and_then (OneHotEncoder_inverse_from_labels enc (array1 (dropna series))) (\<lambda>inverted.
        put_mask (map (\<lambda>l. None) series) (map (\<lambda>l. \<not> isnull l) series)
          (map Some (flat inverted))))"

definition NanHotEncoder_transform :: "'a encoder \<Rightarrow> 'a option list \<Rightarrow> error + 'a DataFrame" where
  "NanHotEncoder_transform enc samples =
     and_then (NanHotEncoder_transform_to_labels enc samples)
       (NanHotEncoder_transform_from_labels enc)"

text \<open>
  \<^verbatim>\<open>self.inverse_to_labels\<close> is the method inherited from OneHotEncoder: NanHotEncoder
  has no method of that name. Its integer result enters the float-label routine.
\<close>

definition NanHotEncoder_inverse :: "'a encoder \<Rightarrow> nat ndarray \<Rightarrow> error + 'a option list" where
  "NanHotEncoder_inverse enc encoded =
     and_then (OneHotEncoder_inverse_to_labels encoded) (\<lambda>labels.
       NanHotEncoder_inverse_from_labels enc
         \<lparr>shape = shape labels, flat = map Some (flat labels)\<rparr>)"

section \<open>CatHotEncoder\<close>

text \<open>
  A categorical Series: its category dictionary and one code per entry, \<open>-1\<close> for an
  entry with no category. pandas keeps the categories distinct and the codes in
  \<open>[-1, len)\<close>.
\<close>

record 'a categorical =
  cat_categories :: "'a list"
  cat_codes :: "int list"

definition valid_categorical :: "'a categorical \<Rightarrow> bool" where
  "valid_categorical s =
     (distinct (cat_categories s) \<and>
      list_all (\<lambda>c. - 1 \<le> c \<and> c < int (length (cat_categories s))) (cat_codes s))"

text \<open>The entries of a categorical Series as values, \<open>None\<close> for the code \<open>-1\<close>.\<close>

definition cat_values :: "'a categorical \<Rightarrow> 'a option list" where
  "cat_values s =
     map (\<lambda>c. if c = - 1 then None else Some (cat_categories s ! nat c)) (cat_codes s)"

text \<open>The code of a value in a category list: its position, \<open>-1\<close> when it is absent.\<close>

fun code_of :: "'a list \<Rightarrow> 'a \<Rightarrow> int" where
  "code_of [] x = - 1"
| "code_of (c # cs) x = (if c = x then 0 else if code_of cs x < 0 then - 1 else code_of cs x + 1)"

text \<open>
  \<^verbatim>\<open>series.cat.set_categories(new)\<close>: every entry is coded again against \<open>new\<close>;
  pandas raises ValueError for categories that are not distinct.
\<close>

definition cat_set_categories :: "'a categorical \<Rightarrow> 'a list \<Rightarrow> error + 'a categorical" where
  "cat_set_categories s new =
     (if \<not> distinct new then Inl ValueError
      else Inr \<lparr>cat_categories = new,
                cat_codes = map (\<lambda>v. case v of None \<Rightarrow> - 1 | Some x \<Rightarrow> code_of new x)
                              (cat_values s)\<rparr>)"

text \<open>
  \<^verbatim>\<open>pd.Categorical.from_codes(codes, categories)\<close>: ValueError for categories that are
  not distinct and for a code outside \<open>[-1, len)\<close>.
\<close>

definition from_codes :: "int list \<Rightarrow> 'a list \<Rightarrow> error + 'a categorical" where
  "from_codes codes cats =
     (if \<not> distinct cats then Inl ValueError
      else if \<not> list_all (\<lambda>c. - 1 \<le> c \<and> c < int (length cats)) codes then Inl ValueError
      else Inr \<lparr>cat_categories = cats, cat_codes = codes\<rparr>)"

definition CatHotEncoder_fit :: "'a::linorder encoder \<Rightarrow> 'a categorical \<Rightarrow> 'a encoder" where
  "CatHotEncoder_fit enc samples = OneHotEncoder_fit enc (array1 (cat_categories samples))"

definition CatHotEncoder_transform_from_labels ::
  "'a encoder \<Rightarrow> int ndarray \<Rightarrow> error + 'a DataFrame" where
  "CatHotEncoder_transform_from_labels enc labels =
     (if length (shape labels) > 1
      then Inl (ProgrammingError ''Encoder only accepts 1-dimensional data.'')
      else
        let nans = map (\<lambda>l. l = - 1) (flat labels) in
        and_then (OneHotEncoder_transform_from_labels enc
                    (array1 (boolean_index (flat labels) (map Not nans)))) (\<lambda>encoded.
        and_then (n_categories enc) (\<lambda>n.
        and_then (mask_assign (prod_list (shape labels)) (map Not nans) (rows_of encoded)
                    (replicate n 0)) (\<lambda>rows.
        and_then (categories enc) (\<lambda>cats.
          pd_DataFrame \<lparr>shape = shape labels @ [n], flat = concat rows\<rparr> cats)))))"

text \<open>The method the class spells \<^verbatim>\<open>inverse_to_lables\<close>, as in NanHotEncoder.\<close>

definition CatHotEncoder_inverse_to_lables :: "nat ndarray \<Rightarrow> error + int ndarray" where
  "CatHotEncoder_inverse_to_lables encoded =
     (let nans = map (\<lambda>r. sum_list r = 0) (rows_of encoded);
          kept = boolean_index (rows_of encoded) (map Not nans) in
      and_then (OneHotEncoder_inverse_to_labels
                  \<lparr>shape = [length kept, last_axis encoded], flat = concat kept\<rparr>) (\<lambda>inverted.
      and_then (mask_assign (prod_list (butlast (shape encoded))) (map Not nans)
                  (flat inverted) (- 1)) (\<lambda>filled.
        Inr \<lparr>shape = butlast (shape encoded), flat = filled\<rparr>)))"

definition CatHotEncoder_transform_to_labels ::
  "'a encoder \<Rightarrow> 'a categorical \<Rightarrow> error + int ndarray" where
  "CatHotEncoder_transform_to_labels enc samples =
     Inl (ProgrammingError ''Redundant action for pd.Categorical. Use series.cat.codes instead.'')"

definition CatHotEncoder_inverse_from_labels ::
  "'a encoder \<Rightarrow> int ndarray \<Rightarrow> error + 'a categorical" where
  "CatHotEncoder_inverse_from_labels enc labels =
     Inl (ProgrammingError
       ''Redundant action for pd.Categorical. Use pd.Categorical.from_codes instead.'')"

definition CatHotEncoder_transform ::
  "'a encoder \<Rightarrow> 'a categorical \<Rightarrow> error + 'a DataFrame" where
  "CatHotEncoder_transform enc samples =
     and_then (categories enc) (\<lambda>cats.
       and_then (cat_set_categories samples cats) (\<lambda>recoded.
         CatHotEncoder_transform_from_labels enc (array1 (cat_codes recoded))))"

text \<open>
  \<^verbatim>\<open>self.inverse_to_labels\<close> is again the inherited method. The model covers a
  two-dimensional \<open>encoded\<close>, whose codes are one-dimensional.
\<close>

definition CatHotEncoder_inverse ::
  "'a encoder \<Rightarrow> nat ndarray \<Rightarrow> error + 'a categorical" where
  "CatHotEncoder_inverse enc encoded =
     and_then (OneHotEncoder_inverse_to_labels encoded) (\<lambda>codes.
       and_then (categories enc) (\<lambda>cats. from_codes (flat codes) cats))"

section \<open>Self-organising map measures\<close>

text \<open>
  \<^verbatim>\<open>som.weights\<close> is an array whose last two axes hold one unit's weights and whose
  leading axes are the map: both measures read the map shape as
  \<^verbatim>\<open>weights.shape[:-2]\<close>. The u-matrix is modelled in exact arithmetic.
\<close>

text \<open>
  \<^verbatim>\<open>np.indices(map_shape)\<close> read unit by unit, as the loop of \<^verbatim>\<open>umatrix\<close> does:
  all grid coordinates in row-major order.
\<close>

fun ndindex :: "nat list \<Rightarrow> nat list list" where
  "ndindex [] = [[]]"
| "ndindex (n # ns) = concat (map (\<lambda>i. map ((#) i) (ndindex ns)) [0..<n])"

text \<open>The position of a grid coordinate in row-major order.\<close>

fun ravel_index :: "nat list \<Rightarrow> nat list \<Rightarrow> nat" where
  "ravel_index [] shp = 0"
| "ravel_index (c # cs) shp = c * prod_list (tl shp) + ravel_index cs (tl shp)"

text \<open>\<^verbatim>\<open>np.unravel_index\<close>: the grid coordinate at a row-major position.\<close>

fun unravel_index :: "nat \<Rightarrow> nat list \<Rightarrow> nat list" where
  "unravel_index idx [] = []"
| "unravel_index idx (n # ns) = (idx div prod_list ns) # unravel_index (idx mod prod_list ns) ns"

text \<open>
  \<^verbatim>\<open>np.linalg.norm\<close> of the difference of two integer coordinate vectors.
\<close>

definition index_distance :: "nat list \<Rightarrow> nat list \<Rightarrow> real" where
  "index_distance i j = sqrt (\<Sum>(a, b)\<leftarrow>zip i j. (real_of_int (int a - int b))\<^sup>2)"

definition squared_distance :: "real list \<Rightarrow> real list \<Rightarrow> real" where
  "squared_distance u v = (\<Sum>(a, b)\<leftarrow>zip u v. (a - b)\<^sup>2)"

text \<open>The \<open>c\<close>-th block of \<open>len\<close> consecutive elements: one unit's weights, one sample.\<close>

definition block_at :: "real ndarray \<Rightarrow> nat \<Rightarrow> nat \<Rightarrow> real list" where
  "block_at a len c = take len (drop (c * len) (flat a))"

definition np_mean :: "real list \<Rightarrow> real" where
  "np_mean xs = sum_list xs / real (length xs)"

text \<open>
  \<^verbatim>\<open>umatrix\<close>. \<^verbatim>\<open>indices.reshape(indices.shape[0], -1)\<close> raises ValueError for an
  empty map shape. For the unit \<open>i\<close>, \<open>locs\<close> are the units at index distance in
  \<open>(0, d]\<close>; \<^verbatim>\<open>np.linalg.norm(weights[locs] - weights[i])\<close> has no axis argument,
  so it is the 2-norm of all the differences taken together, one number, and
  \<^verbatim>\<open>np.mean\<close> is applied to that number.
\<close>

definition umatrix :: "real ndarray \<Rightarrow> real \<Rightarrow> error + real ndarray" where
  "umatrix weights d =
     (let map_shape = take (length (shape weights) - 2) (shape weights);
          block = prod_list (drop (length (shape weights) - 2) (shape weights))
      in if map_shape = [] then Inl ValueError
         else Inr \<lparr>shape = map_shape,
                   flat = map (\<lambda>i.
                     let locs = filter (\<lambda>j. index_distance j i > 0 \<and> index_distance j i \<le> d)
                                  (ndindex map_shape);
                         dist = sqrt (\<Sum>j\<leftarrow>locs.
                                  squared_distance (block_at weights block (ravel_index j map_shape))
                                    (block_at weights block (ravel_index i map_shape)))
                     in np_mean [dist]) (ndindex map_shape)\<rparr>)"

text \<open>
  The operations of numpy that \<^verbatim>\<open>topographic_error\<close> relies on and whose results
  depend on the machine: the floating-point sum of squared differences along the last
  axis (\<^verbatim>\<open>np.sum((w - x) ** 2, axis=-1)\<close> for one pair of rows), the norm of an integer
  vector, the division of \<^verbatim>\<open>np.mean\<close>, and \<^verbatim>\<open>np.argsort\<close>, whose order of equal keys
  numpy does not fix. They are parameters of the model. A finite double is the real
  number it holds.
\<close>

record numpy_ops =
  sum_sq_diff :: "real list \<Rightarrow> real list \<Rightarrow> real"
  norm_int :: "int list \<Rightarrow> real"
  true_divide :: "real \<Rightarrow> real \<Rightarrow> real"
  argsort :: "real list \<Rightarrow> nat list"

text \<open>
  Broadcasting of two shapes, aligned at their last axes: two lengths agree when they
  are equal or one of them is 1.
\<close>

fun broadcast_rev :: "nat list \<Rightarrow> nat list \<Rightarrow> nat list option" where
  "broadcast_rev [] ys = Some ys"
| "broadcast_rev (x # xs) [] = Some (x # xs)"
| "broadcast_rev (x # xs) (y # ys) =
     (if x = y \<or> y = 1 then map_option ((#) x) (broadcast_rev xs ys)
      else if x = 1 then map_option ((#) y) (broadcast_rev xs ys)
      else None)"

definition broadcast_shapes :: "nat list \<Rightarrow> nat list \<Rightarrow> nat list option" where
  "broadcast_shapes s t = map_option rev (broadcast_rev (rev s) (rev t))"

text \<open>
  The elements of an array broadcast to a shape, in row-major order: the element at a
  coordinate is read at the coordinate's last components, with 0 along every axis of
  length 1.
\<close>

definition broadcast_to :: "'b ndarray \<Rightarrow> nat list \<Rightarrow> 'b list" where
  "broadcast_to a shp =
     map (\<lambda>idx. flat a ! ravel_index
            (map2 (\<lambda>n i. if n = 1 then 0 else i) (shape a)
               (drop (length shp - length (shape a)) idx))
            (shape a))
       (ndindex shp)"

text \<open>
  \<^verbatim>\<open>topographic_error\<close>, line by line. \<^verbatim>\<open>x.shape[0]\<close> raises IndexError for a
  0-dimensional \<open>x\<close>; \<^verbatim>\<open>weights - x\<close> raises ValueError for shapes that do not
  broadcast; \<open>dist\<close> has one entry per row of the difference;
  \<^verbatim>\<open>dist.reshape(-1, n_data)\<close> raises ValueError when \<open>n_data\<close> is 0 or does not divide
  the number of entries; \<open>order\<close> is the argsort of every column and \<open>bmus\<close> its first
  two rows (fewer when there are fewer); \<^verbatim>\<open>np.unravel_index\<close> raises ValueError for an
  empty map shape and for a position outside the map; \<^verbatim>\<open>b_ix[:, i+n_data]\<close> raises
  IndexError when \<open>bmus\<close> has fewer than two rows.
\<close>

definition topographic_error ::
  "numpy_ops \<Rightarrow> real ndarray \<Rightarrow> real ndarray \<Rightarrow> real \<Rightarrow> error + real" where
  "topographic_error np weights x neighbor_radius =
     (if shape x = [] then Inl IndexError
      else
        let n_data = hd (shape x);
            map_shape = take (length (shape weights) - 2) (shape weights)
        in case broadcast_shapes (shape weights) (shape x) of
             None \<Rightarrow> Inl ValueError
           | Some shp \<Rightarrow>
               let dist = map2 (sum_sq_diff np)
                            (rows_of \<lparr>shape = shp, flat = broadcast_to weights shp\<rparr>)
                            (rows_of \<lparr>shape = shp, flat = broadcast_to x shp\<rparr>)
               in if n_data = 0 \<or> length dist mod n_data \<noteq> 0 then Inl ValueError
                  else
                    let n_rows = length dist div n_data;
                        order = map (\<lambda>k. argsort np (map (\<lambda>q. dist ! (q * n_data + k)) [0..<n_rows]))
                                  [0..<n_data];
                        bmus = map (\<lambda>j. map (\<lambda>col. col ! j) order) [0..<min 2 n_rows]
                    in if map_shape = [] \<or>
                          \<not> list_all (\<lambda>b. b < prod_list map_shape) (concat bmus)
                       then Inl ValueError
                       else
                         let b_ix = map (\<lambda>b. unravel_index b map_shape) (concat bmus)
                         in if length b_ix < 2 * n_data then Inl IndexError
                            else
                              let errors = map (\<lambda>i.
                                    if norm_int np (map2 (\<lambda>a b. int a - int b)
                                         (b_ix ! i) (b_ix ! (i + n_data))) > neighbor_radius
                                    then 1 else (0::nat)) [0..<n_data]
                              in Inr (true_divide np (real (sum_list errors)) (real n_data)))"

section \<open>Functions for stating the results\<close>

text \<open>
  The label \<^verbatim>\<open>transform_to_labels\<close> gives one sample: the last position at which the
  category list holds it, \<open>0\<close> when none does.
\<close>

definition label_of :: "'a list \<Rightarrow> 'a \<Rightarrow> int" where
  "label_of cats x =
     (case filter (\<lambda>j. cats ! j = x) [0..<length cats] of
        [] \<Rightarrow> 0
      | j # js \<Rightarrow> int (last (j # js)))"

text \<open>The label the null-aware encoder gives a sample, and the row it stands for.\<close>

definition nan_label :: "'a list \<Rightarrow> 'a option \<Rightarrow> int option" where
  "nan_label cats s =
     (case s of None \<Rightarrow> None | Some x \<Rightarrow> if x \<in> set cats then Some (label_of cats x) else None)"

definition onehot_row :: "nat \<Rightarrow> int option \<Rightarrow> nat list" where
  "onehot_row n l = (case l of None \<Rightarrow> replicate n 0 | Some v \<Rightarrow> eye n ! nat v)"

definition nan_category :: "'a list \<Rightarrow> int option \<Rightarrow> 'a option" where
  "nan_category cats l = (case l of None \<Rightarrow> None | Some v \<Rightarrow> Some (cats ! nat v))"

text \<open>The same for the categorical encoder, whose missing code is \<open>-1\<close>.\<close>

definition cat_row :: "nat \<Rightarrow> int \<Rightarrow> nat list" where
  "cat_row n l = (if l = - 1 then replicate n 0 else eye n ! nat l)"

definition recode :: "'a list \<Rightarrow> 'a option \<Rightarrow> int" where
  "recode cats v = (case v of None \<Rightarrow> - 1 | Some x \<Rightarrow> code_of cats x)"

text \<open>
  The encoder of the docstring examples: \<^verbatim>\<open>fit(np.array(['a', 'b', 'c', 'd']))\<close>.
\<close>

definition abcd :: "string list" where
  "abcd = [''a'', ''b'', ''c'', ''d'']"

definition abcd_encoder :: "string encoder" where
  "abcd_encoder = OneHotEncoder_fit encoder_init (array1 abcd)"

text \<open>
  The entry of the neighbour-distance grid as the specification words it: the mean,
  over the units at index distance in \<open>(0, d]\<close> of the unit \<open>i\<close>, of the Euclidean
  distance between the two weight vectors; \<open>None\<close> is the mean over no unit, NaN.
\<close>

definition spec_umatrix_entry :: "real ndarray \<Rightarrow> real \<Rightarrow> nat list \<Rightarrow> real option" where
  "spec_umatrix_entry weights d i =
     (let map_shape = take (length (shape weights) - 2) (shape weights);
          block = prod_list (drop (length (shape weights) - 2) (shape weights));
          neighbors = filter (\<lambda>j. index_distance j i > 0 \<and> index_distance j i \<le> d)
                        (ndindex map_shape)
      in if neighbors = [] then None
         else Some (np_mean (map (\<lambda>j. sqrt (squared_distance
                       (block_at weights block (ravel_index j map_shape))
                       (block_at weights block (ravel_index i map_shape)))) neighbors)))"

text \<open>
  A coordinate of the grid: one component per axis, each below the axis length. Its
  position in row-major order, the weights of the unit there (\<^verbatim>\<open>weights[c]\<close> for
  weights of shape \<open>map_shape + (1, f)\<close>), and the \<open>k\<close>-th sample of \<open>x\<close>.
\<close>

definition grid_coordinate :: "nat list \<Rightarrow> nat list \<Rightarrow> bool" where
  "grid_coordinate ms c = list_all2 (\<lambda>a n. a < n) c ms"

definition row_major :: "nat list \<Rightarrow> nat list \<Rightarrow> nat" where
  "row_major ms c = (\<Sum>d<length ms. c ! d * prod_list (drop (Suc d) ms))"







text \<open>
  The operations without rounding, with a stable argsort. On data for which numpy's
  operations are exact and no two keys are equal they are numpy's.
\<close>

definition stable_argsort :: "real list \<Rightarrow> nat list" where
  "stable_argsort ds = sort_key (\<lambda>i. ds ! i) [0..<length ds]"

definition exact_ops :: numpy_ops where
  "exact_ops =
     \<lparr>sum_sq_diff = squared_distance,
      norm_int = (\<lambda>v. sqrt (real_of_int (\<Sum>a\<leftarrow>v. a\<^sup>2))),
      true_divide = (\<lambda>a b. a / b),
      argsort = stable_argsort\<rparr>"

section \<open>Properties of the array operations\<close>

subsection \<open>Results in the error type\<close>

lemma and_then_Inr [simp]: "and_then (Inr v) f = f v"
  by (simp add: and_then_def)

lemma and_then_Inl [simp]: "and_then (Inl e) f = Inl e"
  by (simp add: and_then_def)

subsection \<open>The first maximum of a row\<close>

text \<open>The scan keeps the first position of the largest entry seen so far.\<close>

lemma argmax_from_spec:
  "length pre = i \<Longrightarrow> pos < i \<Longrightarrow> pre ! pos = best \<Longrightarrow> \<forall>j<i. pre ! j \<le> best \<Longrightarrow>
   \<forall>j<pos. pre ! j < best \<Longrightarrow>
   argmax_from best pos i xs < length (pre @ xs) \<and>
   (\<forall>j<length (pre @ xs). (pre @ xs) ! j \<le> (pre @ xs) ! argmax_from best pos i xs) \<and>
   (\<forall>j<argmax_from best pos i xs. (pre @ xs) ! j < (pre @ xs) ! argmax_from best pos i xs)"
proof (induction xs arbitrary: pre i pos best)
  case Nil
  then show ?case by simp
next
  case (Cons x xs)
  show ?case
  proof (cases "best < x")
    case True
    have "argmax_from x i (Suc i) xs < length ((pre @ [x]) @ xs) \<and>
      (\<forall>j<length ((pre @ [x]) @ xs). ((pre @ [x]) @ xs) ! j \<le> ((pre @ [x]) @ xs) ! argmax_from x i (Suc i) xs) \<and>
      (\<forall>j<argmax_from x i (Suc i) xs. ((pre @ [x]) @ xs) ! j < ((pre @ [x]) @ xs) ! argmax_from x i (Suc i) xs)"
    proof (rule Cons.IH)
      show "length (pre @ [x]) = Suc i" using Cons.prems by simp
      show "i < Suc i" by simp
      show "(pre @ [x]) ! i = x" using Cons.prems by (simp add: nth_append)
      show "\<forall>j<Suc i. (pre @ [x]) ! j \<le> x"
        using Cons.prems True by (auto simp: nth_append less_Suc_eq intro: order.strict_implies_order order.trans)
      show "\<forall>j<i. (pre @ [x]) ! j < x"
        using Cons.prems True by (auto simp: nth_append intro: le_less_trans)
    qed
    with True show ?thesis by simp
  next
    case False
    have "argmax_from best pos (Suc i) xs < length ((pre @ [x]) @ xs) \<and>
      (\<forall>j<length ((pre @ [x]) @ xs). ((pre @ [x]) @ xs) ! j \<le> ((pre @ [x]) @ xs) ! argmax_from best pos (Suc i) xs) \<and>
      (\<forall>j<argmax_from best pos (Suc i) xs. ((pre @ [x]) @ xs) ! j < ((pre @ [x]) @ xs) ! argmax_from best pos (Suc i) xs)"
    proof (rule Cons.IH)
      show "length (pre @ [x]) = Suc i" using Cons.prems by simp
      show "pos < Suc i" using Cons.prems by simp
      show "(pre @ [x]) ! pos = best" using Cons.prems by (simp add: nth_append)
      show "\<forall>j<Suc i. (pre @ [x]) ! j \<le> best"
        using Cons.prems False by (auto simp: nth_append less_Suc_eq)
      show "\<forall>j<pos. (pre @ [x]) ! j < best"
        using Cons.prems by (auto simp: nth_append)
    qed
    with False show ?thesis by simp
  qed
qed

lemma argmax_row_spec:
  assumes "row \<noteq> []"
  shows "argmax_row row < length row"
    and "\<forall>j<length row. row ! j \<le> row ! argmax_row row"
    and "\<forall>j<argmax_row row. row ! j < row ! argmax_row row"
proof -
  obtain x xs where row: "row = x # xs" using assms by (cases row) auto
  have "argmax_from x 0 1 xs < length ([x] @ xs) \<and>
   (\<forall>j<length ([x] @ xs). ([x] @ xs) ! j \<le> ([x] @ xs) ! argmax_from x 0 1 xs) \<and>
   (\<forall>j<argmax_from x 0 1 xs. ([x] @ xs) ! j < ([x] @ xs) ! argmax_from x 0 1 xs)"
    by (rule argmax_from_spec) auto
  then show "argmax_row row < length row"
    and "\<forall>j<length row. row ! j \<le> row ! argmax_row row"
    and "\<forall>j<argmax_row row. row ! j < row ! argmax_row row"
    using row by simp_all
qed

lemma argmax_row_first:
  assumes "row \<noteq> []" "\<forall>j<length row. row ! j \<le> row ! 0"
  shows "argmax_row row = 0"
proof (rule ccontr)
  assume "argmax_row row \<noteq> 0"
  then have pos: "0 < argmax_row row" by simp
  have "row ! 0 < row ! argmax_row row" using argmax_row_spec(3)[OF assms(1)] pos by blast
  moreover have "row ! argmax_row row \<le> row ! 0"
    using assms(2) argmax_row_spec(1)[OF assms(1)] by blast
  ultimately show False by simp
qed

lemma argmax_row_zeros: "0 < n \<Longrightarrow> argmax_row (replicate n (0::nat)) = 0"
  by (rule argmax_row_first) auto

lemma argmax_row_all_zero:
  assumes "row \<noteq> []" "\<forall>v\<in>set row. v = (0::nat)"
  shows "argmax_row row = 0"
proof -
  from assms(2) have "\<forall>j<length row. row ! j = 0" by simp
  with assms(1) show ?thesis by (intro argmax_row_first) simp_all
qed

lemma argmax_row_Max:
  assumes "row \<noteq> []"
  shows "row ! argmax_row row = Max (set row)"
proof (rule Max_eqI[symmetric])
  show "finite (set row)" by simp
  show "row ! argmax_row row \<in> set row" using argmax_row_spec(1)[OF assms] by simp
  fix y assume "y \<in> set row"
  then obtain j where "j < length row" "row ! j = y" by (auto simp: in_set_conv_nth)
  then show "y \<le> row ! argmax_row row" using argmax_row_spec(2)[OF assms] by blast
qed

lemma argmax_row_least:
  assumes "row \<noteq> []" "j < length row" "row ! j = Max (set row)"
  shows "argmax_row row \<le> j"
proof (rule ccontr)
  assume "\<not> argmax_row row \<le> j"
  then have "j < argmax_row row" by simp
  then have "row ! j < row ! argmax_row row" using argmax_row_spec(3)[OF assms(1)] by blast
  then show False using assms(3) argmax_row_Max[OF assms(1)] by simp
qed

subsection \<open>Labels by comparison and scatter\<close>

text \<open>The scattered writes give every sample the label \<open>label_of\<close>.\<close>

lemma fold_scatter_length:
  "length (fold (\<lambda>(i, j) ls. ls[i := int j]) ps ls0) = length ls0"
  by (induction ps arbitrary: ls0) (auto split: prod.splits)

lemma fold_scatter_nth:
  "k < length ls0 \<Longrightarrow>
   fold (\<lambda>(i, j) ls. ls[i := int j]) ps ls0 ! k =
     (case filter (\<lambda>p. fst p = k) ps of [] \<Rightarrow> ls0 ! k | q # qs \<Rightarrow> int (snd (last (q # qs))))"
proof (induction ps arbitrary: ls0)
  case Nil
  then show ?case by simp
next
  case (Cons p ps)
  obtain i j where p: "p = (i, j)" by (cases p)
  have len: "k < length (ls0[i := int j])" using Cons.prems by simp
  show ?case
    using Cons.IH[OF len] Cons.prems
    by (auto simp: p split: list.splits)
qed

lemma concat_map_single:
  "concat (map (\<lambda>i. if i = k then f i else []) [0..<n]) = (if k < n then f k else [])"
  by (induction n) auto

lemma filter_argwhere:
  "k < length xs \<Longrightarrow>
   filter (\<lambda>p. fst p = k) (argwhere_eq cats xs) =
     map (Pair k) (filter (\<lambda>j. cats ! j = xs ! k) [0..<length cats])"
proof -
  assume k: "k < length xs"
  have "filter (\<lambda>p. fst p = k) (argwhere_eq cats xs) =
     concat (map (\<lambda>i. if i = k then map (Pair i) (filter (\<lambda>j. cats ! j = xs ! i) [0..<length cats]) else [])
       [0..<length xs])"
    unfolding argwhere_eq_def filter_concat map_map
    by (rule arg_cong[where f = concat], rule map_cong) (auto simp: filter_map o_def)
  also have "\<dots> = map (Pair k) (filter (\<lambda>j. cats ! j = xs ! k) [0..<length cats])"
    using k by (simp add: concat_map_single)
  finally show ?thesis .
qed

lemma scatter_labels_nth:
  assumes "k < length xs"
  shows "scatter_labels (length xs) (argwhere_eq cats xs) ! k = label_of cats (xs ! k)"
proof -
  have "scatter_labels (length xs) (argwhere_eq cats xs) ! k =
      (case filter (\<lambda>p. fst p = k) (argwhere_eq cats xs) of
         [] \<Rightarrow> replicate (length xs) 0 ! k | q # qs \<Rightarrow> int (snd (last (q # qs))))"
    unfolding scatter_labels_def using assms by (intro fold_scatter_nth) simp
  also have "\<dots> = label_of cats (xs ! k)"
    using assms
    by (simp add: filter_argwhere label_of_def last_map split: list.splits)
  finally show ?thesis .
qed

lemma scatter_labels_map:
  "scatter_labels (length xs) (argwhere_eq cats xs) = map (label_of cats) xs"
  by (rule nth_equalityI) (simp_all add: scatter_labels_def fold_scatter_length scatter_labels_nth[unfolded scatter_labels_def])

lemma label_of_absent: "x \<notin> set cats \<Longrightarrow> label_of cats x = 0"
proof -
  assume "x \<notin> set cats"
  then have "filter (\<lambda>j. cats ! j = x) [0..<length cats] = []"
    by (auto simp: filter_empty_conv)
  then show ?thesis by (simp add: label_of_def)
qed

lemma label_of_present:
  assumes "x \<in> set cats"
  shows "0 \<le> label_of cats x \<and> label_of cats x < int (length cats) \<and> cats ! nat (label_of cats x) = x"
proof -
  let ?js = "filter (\<lambda>j. cats ! j = x) [0..<length cats]"
  from assms obtain j0 where "j0 < length cats" "cats ! j0 = x" by (auto simp: in_set_conv_nth)
  then have "j0 \<in> set ?js" by simp
  then have ne: "?js \<noteq> []" by (metis empty_iff empty_set)
  then have "last ?js \<in> set ?js" by (rule last_in_set)
  then have l: "last ?js < length cats" "cats ! last ?js = x" by auto
  from ne have "label_of cats x = int (last ?js)"
    by (cases ?js) (simp_all add: label_of_def)
  with l show ?thesis by simp
qed

lemma label_of_range:
  assumes "cats \<noteq> []"
  shows "0 \<le> label_of cats x \<and> label_of cats x < int (length cats)"
proof (cases "x \<in> set cats")
  case True
  then show ?thesis using label_of_present[of x cats] by simp
next
  case False
  then show ?thesis using assms by (simp add: label_of_absent)
qed

lemma filter_eq_upt: "j < n \<Longrightarrow> filter (\<lambda>i. i = j) [0..<n] = [j]"
  by (induction n) (auto simp: less_Suc_eq)

lemma label_of_distinct:
  assumes "distinct cats" "j < length cats"
  shows "label_of cats (cats ! j) = int j"
proof -
  have "filter (\<lambda>i. cats ! i = cats ! j) [0..<length cats] = filter (\<lambda>i. i = j) [0..<length cats]"
    using assms by (intro filter_cong) (auto simp: nth_eq_iff_index_eq)
  also have "\<dots> = [j]" using assms(2) by (rule filter_eq_upt)
  finally show ?thesis by (simp add: label_of_def)
qed

subsection \<open>Rows of the identity matrix and of an array\<close>

lemma eye_length [simp]: "length (eye n) = n"
  by (simp add: eye_def)

lemma eye_row_length [simp]: "l < n \<Longrightarrow> length (eye n ! l) = n"
  by (simp add: eye_def)

lemma eye_nth: "l < n \<Longrightarrow> j < n \<Longrightarrow> eye n ! l ! j = (if l = j then 1 else 0)"
  by (simp add: eye_def)

lemma sum_list_unit_row: "l < n \<Longrightarrow> sum_list (map (\<lambda>j. if l = j then 1 else 0) [0..<n]) = (1::nat)"
  by (induction n) (auto simp: less_Suc_eq)

lemma eye_row_sum: "l < n \<Longrightarrow> sum_list (eye n ! l) = 1"
  by (simp add: eye_def sum_list_unit_row)

lemma eye_row_props:
  assumes "r \<in> set (eye n)"
  shows "length r = n" "sum_list r = 1"
proof -
  from assms obtain l where "l < n" "r = eye n ! l" by (auto simp: in_set_conv_nth)
  then show "length r = n" "sum_list r = 1" by (simp_all add: eye_row_sum)
qed

lemma argmax_row_eye:
  assumes "l < n"
  shows "argmax_row (eye n ! l) = l"
proof -
  let ?row = "eye n ! l"
  have ne: "?row \<noteq> []" using assms by (metis eye_row_length length_0_conv not_less_zero)
  have r: "argmax_row ?row < n" using argmax_row_spec(1)[OF ne] assms by simp
  have "?row ! l \<le> ?row ! argmax_row ?row"
    using argmax_row_spec(2)[OF ne] assms by simp
  then show ?thesis using assms r by (simp add: eye_nth split: if_splits)
qed

lemma take_drop_concat:
  "\<forall>r\<in>set rs. length r = n \<Longrightarrow> i < length rs \<Longrightarrow> take n (drop (i * n) (concat rs)) = rs ! i"
proof (induction rs arbitrary: i)
  case Nil
  then show ?case by simp
next
  case (Cons r rs)
  then show ?case by (cases i) auto
qed

lemma rows_of_concat:
  assumes "\<forall>r\<in>set rs. length r = n" "length rs = prod_list s"
  shows "rows_of \<lparr>shape = s @ [n], flat = concat rs\<rparr> = rs"
proof (rule nth_equalityI)
  show "length (rows_of \<lparr>shape = s @ [n], flat = concat rs\<rparr>) = length rs"
    using assms by (simp add: rows_of_def)
next
  fix i assume "i < length (rows_of \<lparr>shape = s @ [n], flat = concat rs\<rparr>)"
  then have i: "i < length rs" using assms by (simp add: rows_of_def)
  then show "rows_of \<lparr>shape = s @ [n], flat = concat rs\<rparr> ! i = rs ! i"
    using assms by (simp add: rows_of_def last_axis_def take_drop_concat)
qed

lemma rows_of_length [simp]: "length (rows_of a) = prod_list (butlast (shape a))"
  by (simp add: rows_of_def)

lemma well_shaped_length:
  "well_shaped a \<Longrightarrow> length (flat a) = prod_list (butlast (shape a)) * last_axis a"
proof (cases "shape a = []")
  case True
  assume "well_shaped a"
  with True show ?thesis by (simp add: well_shaped_def last_axis_def)
next
  case False
  assume ws: "well_shaped a"
  from False have "shape a = butlast (shape a) @ [last (shape a)]" by simp
  then have "prod_list (shape a) = prod_list (butlast (shape a)) * last (shape a)"
    by (metis prod_list.append prod_list.Cons prod_list.Nil mult.right_neutral)
  with ws False show ?thesis by (simp add: well_shaped_def last_axis_def)
qed

lemma rows_of_row_length:
  assumes "well_shaped a" "i < length (rows_of a)"
  shows "length (rows_of a ! i) = last_axis a"
proof -
  let ?n = "last_axis a" and ?p = "prod_list (butlast (shape a))"
  have i: "i < ?p" using assms(2) by simp
  have "Suc i * ?n \<le> ?p * ?n" using i by (intro mult_le_mono1) simp
  then have "?n \<le> length (flat a) - i * ?n"
    using well_shaped_length[OF assms(1)] by simp
  then show ?thesis using i by (simp add: rows_of_def)
qed

lemma index_rows_Inr:
  "list_all (\<lambda>l. 0 \<le> l \<and> l < int (length a)) ls \<Longrightarrow> index_rows a ls = Inr (map (\<lambda>l. a ! nat l) ls)"
  by (auto simp: index_rows_def list_all_iff)

lemma index_rows_Inr_D:
  assumes "index_rows a ls = Inr rows"
  shows "length rows = length ls" "set rows \<subseteq> set a"
proof -
  from assms have r: "list_all (\<lambda>l. - int (length a) \<le> l \<and> l < int (length a)) ls"
    and rows: "rows = map (\<lambda>l. a ! nat (if l < 0 then l + int (length a) else l)) ls"
    by (auto simp: index_rows_def split: if_splits)
  show "length rows = length ls" by (simp add: rows)
  show "set rows \<subseteq> set a"
  proof
    fix x assume "x \<in> set rows"
    then obtain l where l: "l \<in> set ls" "x = a ! nat (if l < 0 then l + int (length a) else l)"
      by (auto simp: rows)
    from r l(1) have "- int (length a) \<le> l \<and> l < int (length a)" by (simp add: list_all_iff)
    then have "nat (if l < 0 then l + int (length a) else l) < length a" by auto
    then show "x \<in> set a" using l(2) by simp
  qed
qed

subsection \<open>Masks\<close>

lemma boolean_index_map: "boolean_index xs (map P xs) = filter P xs"
  unfolding boolean_index_def by (induction xs) auto

lemma count_mask_map: "length (filter id (map P xs)) = length (filter P xs)"
  by (induction xs) auto

lemma fill_mask_map:
  "fill_mask (replicate (length xs) init) (map P xs) (map f (filter P xs)) =
     map (\<lambda>x. if P x then f x else init) xs"
  by (induction xs) auto

lemma mask_assign_map:
  "mask_assign (length xs) (map P xs) (map f (filter P xs)) init =
     Inr (map (\<lambda>x. if P x then f x else init) xs)"
  by (simp add: mask_assign_def put_mask_def count_mask_map fill_mask_map)

lemma fill_mask_map2:
  "fill_mask (map g xs) (map P xs) (map f (filter P xs)) =
     map (\<lambda>x. if P x then f x else g x) xs"
  by (induction xs) auto

lemma put_mask_map:
  "put_mask (map g xs) (map P xs) (map f (filter P xs)) =
     Inr (map (\<lambda>x. if P x then f x else g x) xs)"
  by (simp add: put_mask_def count_mask_map fill_mask_map2)

lemma fill_mask_length [simp]: "length (fill_mask arr ms vs) = length arr"
  by (induction arr ms vs rule: fill_mask.induct) auto

lemma fill_mask_set: "set (fill_mask arr ms vs) \<subseteq> set arr \<union> set vs"
  by (induction arr ms vs rule: fill_mask.induct) auto

lemma mask_assign_Inr_D:
  assumes "mask_assign m msk vals init = Inr out"
  shows "length out = m" "set out \<subseteq> insert init (set vals)"
proof -
  from assms consider "out = fill_mask (replicate m init) msk vals"
    | "length vals = 1" "out = fill_mask (replicate m init) msk
         (replicate (length (filter id msk)) (hd vals))"
    by (auto simp: mask_assign_def put_mask_def Let_def split: if_splits)
  then have "length out = m \<and> set out \<subseteq> insert init (set vals)"
  proof cases
    case 1
    then show ?thesis using fill_mask_set[of "replicate m init" msk vals] by auto
  next
    case 2
    from 2(1) have "hd vals \<in> set vals" by (cases vals) auto
    then show ?thesis
      using 2(2) fill_mask_set[of "replicate m init" msk
          "replicate (length (filter id msk)) (hd vals)"]
      by auto
  qed
  then show "length out = m" "set out \<subseteq> insert init (set vals)" by simp_all
qed

lemma dropna_eq: "dropna xs = map the (filter (\<lambda>x. \<not> isnull x) xs)"
  by (simp add: dropna_def boolean_index_map)

subsection \<open>Unique values\<close>

lemma np_unique_distinct: "distinct (np_unique xs)"
  by (simp add: np_unique_def)

lemma np_unique_set: "set (np_unique xs) = set xs"
  by (simp add: np_unique_def)

section \<open>What the encoders compute\<close>

subsection \<open>OneHotEncoder\<close>

lemma categories_Some: "priv_categories enc = Some cats \<Longrightarrow> categories enc = Inr cats"
  by (simp add: categories_def)

lemma n_categories_Some: "priv_categories enc = Some cats \<Longrightarrow> n_categories enc = Inr (length cats)"
  by (simp add: n_categories_def categories_def and_then_def)

lemma abcd_encoder_categories: "priv_categories abcd_encoder = Some abcd"
  by (simp add: abcd_encoder_def abcd_def OneHotEncoder_fit_def array1_def np_unique_def)

lemma transform_to_labels_eq:
  "priv_categories enc = Some cats \<Longrightarrow>
   OneHotEncoder_transform_to_labels enc samples =
     Inr \<lparr>shape = shape samples, flat = map (label_of cats) (flat samples)\<rparr>"
  by (simp add: OneHotEncoder_transform_to_labels_def categories_Some and_then_def scatter_labels_map)

lemma transform_from_labels_eq:
  assumes "priv_categories enc = Some cats"
    and "list_all (\<lambda>l. 0 \<le> l \<and> l < int (length cats)) (flat labels)"
  shows "OneHotEncoder_transform_from_labels enc labels =
     Inr \<lparr>shape = shape labels @ [length cats],
          flat = concat (map (\<lambda>l. eye (length cats) ! nat l) (flat labels))\<rparr>"
  using assms
  by (simp add: OneHotEncoder_transform_from_labels_def n_categories_Some and_then_def index_rows_Inr)

lemma transform_from_labels_Inr_D:
  assumes "OneHotEncoder_transform_from_labels enc labels = Inr e"
  shows "\<exists>cats rows. priv_categories enc = Some cats
           \<and> e = \<lparr>shape = shape labels @ [length cats], flat = concat rows\<rparr>
           \<and> length rows = length (flat labels) \<and> set rows \<subseteq> set (eye (length cats))"
proof (cases "priv_categories enc")
  case None
  with assms show ?thesis
    by (simp add: OneHotEncoder_transform_from_labels_def n_categories_def categories_def)
next
  case (Some cats)
  show ?thesis
  proof (cases "index_rows (eye (length cats)) (flat labels)")
    case (Inl err)
    with assms Some show ?thesis
      by (simp add: OneHotEncoder_transform_from_labels_def n_categories_Some)
  next
    case (Inr rows)
    from assms Some Inr have "e = \<lparr>shape = shape labels @ [length cats], flat = concat rows\<rparr>"
      by (simp add: OneHotEncoder_transform_from_labels_def n_categories_Some)
    with Some index_rows_Inr_D[OF Inr] show ?thesis by blast
  qed
qed

lemma OneHotEncoder_transform_eq:
  assumes fitted: "priv_categories enc = Some cats" and ne: "cats \<noteq> []"
  shows "OneHotEncoder_transform enc samples =
     Inr \<lparr>shape = shape samples @ [length cats],
          flat = concat (map (\<lambda>x. eye (length cats) ! nat (label_of cats x)) (flat samples))\<rparr>"
proof -
  have r: "list_all (\<lambda>l. 0 \<le> l \<and> l < int (length cats))
      (flat \<lparr>shape = shape samples, flat = map (label_of cats) (flat samples)\<rparr>)"
    using label_of_range[OF ne] by (simp add: list_all_iff)
  show ?thesis
    using transform_from_labels_eq[OF fitted r]
    by (simp add: OneHotEncoder_transform_def transform_to_labels_eq[OF fitted] o_def)
qed

lemma np_argmax_onehot:
  assumes "0 < n" "list_all (\<lambda>l. 0 \<le> l \<and> l < int n) ls" "length ls = prod_list s"
  shows "np_argmax \<lparr>shape = s @ [n], flat = concat (map (\<lambda>l. eye n ! nat l) ls)\<rparr> =
     Inr \<lparr>shape = s, flat = ls\<rparr>"
proof -
  have rows: "rows_of \<lparr>shape = s @ [n], flat = concat (map (\<lambda>l. eye n ! nat l) ls)\<rparr> =
      map (\<lambda>l. eye n ! nat l) ls"
    using assms by (intro rows_of_concat) (auto simp: list_all_iff)
  have "map (\<lambda>r. int (argmax_row r)) (map (\<lambda>l. eye n ! nat l) ls) = ls"
    using assms(2) by (induction ls) (auto simp: argmax_row_eye)
  then show ?thesis using assms(1) by (simp add: np_argmax_def last_axis_def rows)
qed

lemma OneHotEncoder_inverse_eq:
  assumes fitted: "priv_categories enc = Some cats"
    and ws: "well_shaped encoded" and n: "last_axis encoded = length cats" and ne: "cats \<noteq> []"
  shows "OneHotEncoder_inverse enc encoded =
     Inr \<lparr>shape = butlast (shape encoded),
          flat = map (\<lambda>r. cats ! argmax_row r) (rows_of encoded)\<rparr>"
proof -
  have rng: "list_all (\<lambda>l. 0 \<le> l \<and> l < int (length cats))
      (map (\<lambda>r. int (argmax_row r)) (rows_of encoded))"
  proof -
    have "\<And>r. r \<in> set (rows_of encoded) \<Longrightarrow> argmax_row r < length cats"
    proof -
      fix r assume "r \<in> set (rows_of encoded)"
      then obtain i where i: "i < length (rows_of encoded)" "rows_of encoded ! i = r"
        by (auto simp: in_set_conv_nth)
      have len: "length r = length cats" using rows_of_row_length[OF ws i(1)] i(2) n by simp
      with ne have "r \<noteq> []" by auto
      from argmax_row_spec(1)[OF this] len show "argmax_row r < length cats" by simp
    qed
    then show ?thesis by (simp add: list_all_iff)
  qed
  have a: "OneHotEncoder_inverse_to_labels encoded =
      Inr \<lparr>shape = butlast (shape encoded), flat = map (\<lambda>r. int (argmax_row r)) (rows_of encoded)\<rparr>"
    using n ne by (simp add: OneHotEncoder_inverse_to_labels_def np_argmax_def)
  show ?thesis
    using rng
    by (simp add: OneHotEncoder_inverse_def a OneHotEncoder_inverse_from_labels_def
        categories_Some[OF fitted] index_rows_Inr o_def)
qed

lemma OneHotEncoder_roundtrip:
  assumes fitted: "priv_categories enc = Some cats"
    and ne: "cats \<noteq> []"
    and ws: "well_shaped samples"
    and known: "set (flat samples) \<subseteq> set cats"
  shows "and_then (OneHotEncoder_transform enc samples) (OneHotEncoder_inverse enc) = Inr samples"
proof -
  define ls where "ls = map (label_of cats) (flat samples)"
  have inrange: "list_all (\<lambda>l. 0 \<le> l \<and> l < int (length cats)) ls"
    using known label_of_present[of _ cats] by (auto simp: list_all_iff ls_def)
  have len: "length ls = prod_list (shape samples)"
    using ws by (simp add: ls_def well_shaped_def)
  have undo: "map (\<lambda>l. cats ! nat l) ls = flat samples"
    using known label_of_present[of _ cats] by (auto simp: map_idI subsetD ls_def)
  have t1: "OneHotEncoder_transform_to_labels enc samples = Inr \<lparr>shape = shape samples, flat = ls\<rparr>"
    by (simp add: transform_to_labels_eq[OF fitted] ls_def)
  have t2: "OneHotEncoder_transform_from_labels enc \<lparr>shape = shape samples, flat = ls\<rparr> =
      Inr \<lparr>shape = shape samples @ [length cats],
           flat = concat (map (\<lambda>l. eye (length cats) ! nat l) ls)\<rparr>"
    using transform_from_labels_eq[OF fitted, of "\<lparr>shape = shape samples, flat = ls\<rparr>"] inrange
    by simp
  have i1: "OneHotEncoder_inverse_to_labels \<lparr>shape = shape samples @ [length cats],
           flat = concat (map (\<lambda>l. eye (length cats) ! nat l) ls)\<rparr> =
      Inr \<lparr>shape = shape samples, flat = ls\<rparr>"
    unfolding OneHotEncoder_inverse_to_labels_def
    using ne inrange len by (intro np_argmax_onehot) simp_all
  have i2: "OneHotEncoder_inverse_from_labels enc \<lparr>shape = shape samples, flat = ls\<rparr> = Inr samples"
    using inrange undo
    by (simp add: OneHotEncoder_inverse_from_labels_def categories_Some[OF fitted] and_then_def
        index_rows_Inr)
  show ?thesis
    by (simp only: OneHotEncoder_transform_def OneHotEncoder_inverse_def t1 t2 i1 i2 and_then_def
        sum.case)
qed

lemma OneHot_from_labels_rows:
  assumes ws: "well_shaped labels"
    and t: "OneHotEncoder_transform_from_labels enc labels = Inr e"
  shows "\<forall>r\<in>set (rows_of e). sum_list r = 1"
proof -
  from transform_from_labels_Inr_D[OF t] obtain cats rows where
    fitted: "priv_categories enc = Some cats"
    and e: "e = \<lparr>shape = shape labels @ [length cats], flat = concat rows\<rparr>"
    and len: "length rows = length (flat labels)"
    and sub: "set rows \<subseteq> set (eye (length cats))"
    by blast
  have "rows_of e = rows"
    unfolding e using sub len ws
    by (intro rows_of_concat) (auto dest: eye_row_props(1) simp: well_shaped_def)
  with sub show ?thesis using eye_row_props(2) by blast
qed

subsection \<open>NanHotEncoder\<close>

lemma NanHot_transform_to_labels_eq:
  assumes fitted: "priv_categories enc = Some cats"
  shows "NanHotEncoder_transform_to_labels enc samples =
     Inr \<lparr>shape = [length samples], flat = map (nan_label cats) samples\<rparr>"
proof -
  define P where "P = (\<lambda>s. \<not> (isnull s \<or> \<not> isin cats s))"
  define f where "f = (\<lambda>s. label_of cats (the s))"
  have m: "map Not (map (\<lambda>s. isnull s \<or> \<not> isin cats s) samples) = map P samples"
    by (simp add: P_def)
  have b: "OneHotEncoder_transform_to_labels enc (array1 (map the (filter P samples))) =
      Inr \<lparr>shape = [length (filter P samples)], flat = map f (filter P samples)\<rparr>"
    by (simp add: transform_to_labels_eq[OF fitted] array1_def o_def f_def)
  have e: "map (\<lambda>s. if P s then (Some \<circ> f) s else None) samples = map (nan_label cats) samples"
    by (rule map_cong)
      (auto simp: nan_label_def isnull_def isin_def P_def f_def split: option.splits)
  have a: "mask_assign (length samples) (map P samples) (map Some (map f (filter P samples))) None =
      Inr (map (nan_label cats) samples)"
    using mask_assign_map[of samples P "Some \<circ> f" None] by (simp only: e map_map)
  show ?thesis
    by (simp only: NanHotEncoder_transform_to_labels_def categories_Some[OF fitted] Let_def m
        boolean_index_map b a and_then_Inr ndarray.select_convs)
qed

lemma nan_label_range:
  "list_all (\<lambda>l. case l of None \<Rightarrow> True | Some v \<Rightarrow> 0 \<le> v \<and> v < int (length cats))
     (map (nan_label cats) samples)"
  using label_of_present[of _ cats]
  by (auto simp: list_all_iff nan_label_def split: option.splits)

lemma masked_onehot:
  assumes fitted: "priv_categories enc = Some cats"
    and kr: "list_all (\<lambda>l. 0 \<le> l \<and> l < int (length cats)) (map g (filter P ls))"
  shows "and_then (OneHotEncoder_transform_from_labels enc (array1 (map g (filter P ls))))
      (\<lambda>encoded. mask_assign (length ls) (map P ls) (rows_of encoded) (replicate (length cats) 0)) =
     Inr (map (\<lambda>l. if P l then eye (length cats) ! nat (g l) else replicate (length cats) 0) ls)"
proof -
  let ?n = "length cats"
  let ?kept = "filter P ls"
  have b: "OneHotEncoder_transform_from_labels enc (array1 (map g ?kept)) =
      Inr \<lparr>shape = [length ?kept] @ [?n],
           flat = concat (map (\<lambda>l. eye ?n ! nat l) (map g ?kept))\<rparr>"
    using transform_from_labels_eq[OF fitted, of "array1 (map g ?kept)"] kr
    by (simp add: array1_def)
  have r: "rows_of \<lparr>shape = [length ?kept] @ [?n],
           flat = concat (map (\<lambda>l. eye ?n ! nat l) (map g ?kept))\<rparr> =
      map (\<lambda>l. eye ?n ! nat l) (map g ?kept)"
    using kr by (intro rows_of_concat) (auto simp: list_all_iff)
  have a: "mask_assign (length ls) (map P ls) (map (\<lambda>l. eye ?n ! nat l) (map g ?kept))
        (replicate ?n 0) =
      Inr (map (\<lambda>l. if P l then eye ?n ! nat (g l) else replicate ?n 0) ls)"
    using mask_assign_map[of ls P "\<lambda>l. eye ?n ! nat (g l)" "replicate ?n 0"]
    by (simp add: o_def)
  show ?thesis by (simp only: b and_then_Inr r a)
qed

lemma masked_rows:
  assumes base: "OneHotEncoder_transform_from_labels enc (array1 kept) = Inr encoded"
    and fitted: "priv_categories enc = Some cats"
    and ma: "mask_assign m msk (rows_of encoded) (replicate (length cats) 0) = Inr rows"
  shows "length rows = m"
    "\<forall>r\<in>set rows. length r = length cats \<and> (sum_list r = 0 \<or> sum_list r = 1)"
proof -
  from transform_from_labels_Inr_D[OF base] fitted obtain erows where
    e: "encoded = \<lparr>shape = [length kept] @ [length cats], flat = concat erows\<rparr>"
    and len: "length erows = length kept" and sub: "set erows \<subseteq> set (eye (length cats))"
    by (auto simp: array1_def)
  have "rows_of encoded = erows"
    unfolding e using sub len by (intro rows_of_concat) (auto dest: eye_row_props(1))
  with ma have ma': "mask_assign m msk erows (replicate (length cats) 0) = Inr rows" by simp
  show "length rows = m" by (rule mask_assign_Inr_D(1)[OF ma'])
  show "\<forall>r\<in>set rows. length r = length cats \<and> (sum_list r = 0 \<or> sum_list r = 1)"
  proof
    fix r assume "r \<in> set rows"
    with mask_assign_Inr_D(2)[OF ma'] have "r = replicate (length cats) 0 \<or> r \<in> set erows"
      by auto
    then show "length r = length cats \<and> (sum_list r = 0 \<or> sum_list r = 1)"
    proof
      assume "r = replicate (length cats) 0"
      then show ?thesis by simp
    next
      assume "r \<in> set erows"
      with sub have "r \<in> set (eye (length cats))" by blast
      from eye_row_props[OF this] show ?thesis by simp
    qed
  qed
qed

lemma frame_rows:
  assumes df: "pd_DataFrame \<lparr>shape = shp @ [length cats], flat = concat rows\<rparr> cats = Inr df"
    and dim: "length shp \<le> 1"
    and len: "length rows = prod_list shp"
    and width: "\<forall>r\<in>set rows. length r = length cats"
  shows "rows_of (df_data df) = rows"
proof (cases shp)
  case Nil
  with len obtain r where rows: "rows = [r]" by (cases rows) auto
  from df Nil have one: "length cats = 1"
    and d: "df_data df = \<lparr>shape = [length cats, 1], flat = concat rows\<rparr>"
    by (auto simp: pd_DataFrame_def split: if_splits)
  from width rows one have "length r = 1" by simp
  then show ?thesis by (simp add: d rows one rows_of_def last_axis_def)
next
  case (Cons m rest)
  with dim have shp: "shp = [m]" by simp
  from df shp have d: "df_data df = \<lparr>shape = [m] @ [length cats], flat = concat rows\<rparr>"
    by (auto simp: pd_DataFrame_def split: if_splits)
  show ?thesis unfolding d using width len shp by (intro rows_of_concat) simp_all
qed

lemma NanHot_transform_from_labels_eq:
  assumes fitted: "priv_categories enc = Some cats"
    and inrange: "list_all (\<lambda>l. case l of None \<Rightarrow> True | Some v \<Rightarrow> 0 \<le> v \<and> v < int (length cats)) ls"
  shows "NanHotEncoder_transform_from_labels enc \<lparr>shape = [length ls], flat = ls\<rparr> =
     Inr \<lparr>df_columns = cats,
          df_data = \<lparr>shape = [length ls, length cats],
                     flat = concat (map (onehot_row (length cats)) ls)\<rparr>\<rparr>"
proof -
  let ?n = "length cats"
  define P where "P = (\<lambda>l::int option. \<not> isnull l)"
  have m: "map Not (map isnull ls) = map P ls" by (simp add: P_def)
  have kr: "list_all (\<lambda>l. 0 \<le> l \<and> l < int ?n) (map the (filter P ls))"
    using inrange by (auto simp: list_all_iff isnull_def P_def split: option.splits)
  have e: "map (\<lambda>l. if P l then eye ?n ! nat (the l) else replicate ?n 0) ls =
      map (onehot_row ?n) ls"
    by (rule map_cong) (auto simp: onehot_row_def isnull_def P_def split: option.splits)
  have mo: "and_then (OneHotEncoder_transform_from_labels enc (array1 (map the (filter P ls))))
      (\<lambda>encoded. mask_assign (length ls) (map P ls) (rows_of encoded) (replicate ?n 0)) =
     Inr (map (onehot_row ?n) ls)"
    using masked_onehot[OF fitted kr] by (simp only: e)
  have "NanHotEncoder_transform_from_labels enc \<lparr>shape = [length ls], flat = ls\<rparr> =
      and_then (and_then (OneHotEncoder_transform_from_labels enc (array1 (map the (filter P ls))))
        (\<lambda>encoded. mask_assign (length ls) (map P ls) (rows_of encoded) (replicate ?n 0)))
        (\<lambda>rows. pd_DataFrame \<lparr>shape = [length ls] @ [?n], flat = concat rows\<rparr> cats)"
    unfolding NanHotEncoder_transform_from_labels_def
    by (cases "OneHotEncoder_transform_from_labels enc (array1 (map the (filter P ls)))")
      (simp_all add: Let_def m[unfolded map_map] boolean_index_map[of ls P, unfolded P_def o_def]
        n_categories_Some[OF fitted] categories_Some[OF fitted] P_def o_def
        boolean_index_map[of ls "\<lambda>l. \<not> isnull l"])
  also have "\<dots> = Inr \<lparr>df_columns = cats,
          df_data = \<lparr>shape = [length ls, length cats],
                     flat = concat (map (onehot_row (length cats)) ls)\<rparr>\<rparr>"
    by (simp only: mo and_then_Inr) (simp add: pd_DataFrame_def)
  finally show ?thesis .
qed

lemma NanHot_transform_eq:
  assumes fitted: "priv_categories enc = Some cats"
  shows "NanHotEncoder_transform enc samples =
     Inr \<lparr>df_columns = cats,
          df_data = \<lparr>shape = [length samples, length cats],
                     flat = concat (map (\<lambda>s. onehot_row (length cats) (nan_label cats s)) samples)\<rparr>\<rparr>"
  using NanHot_transform_from_labels_eq[OF fitted nan_label_range, of samples]
  by (simp add: NanHotEncoder_transform_def NanHot_transform_to_labels_eq[OF fitted] o_def)

lemma NanHot_inverse_from_labels_eq:
  assumes fitted: "priv_categories enc = Some cats"
    and inrange: "list_all (\<lambda>l. case l of None \<Rightarrow> True | Some v \<Rightarrow> 0 \<le> v \<and> v < int (length cats)) (flat labels)"
  shows "NanHotEncoder_inverse_from_labels enc labels = Inr (map (nan_category cats) (flat labels))"
proof -
  define P where "P = (\<lambda>l::int option. \<not> isnull l)"
  define ls where "ls = flat labels"
  have kr: "list_all (\<lambda>l. 0 \<le> l \<and> l < int (length cats)) (map the (filter P ls))"
    using inrange by (auto simp: list_all_iff isnull_def P_def ls_def split: option.splits)
  have b: "OneHotEncoder_inverse_from_labels enc (array1 (dropna ls)) =
      Inr \<lparr>shape = [length (filter P ls)], flat = map (\<lambda>l. cats ! nat (the l)) (filter P ls)\<rparr>"
    using kr
    by (simp add: OneHotEncoder_inverse_from_labels_def categories_Some[OF fitted] dropna_eq
        array1_def index_rows_Inr o_def P_def)
  have e: "map (\<lambda>l. if P l then Some (cats ! nat (the l)) else None) ls = map (nan_category cats) ls"
    by (rule map_cong) (auto simp: nan_category_def isnull_def P_def split: option.splits)
  have a: "put_mask (map (\<lambda>l. None) ls) (map P ls)
        (map Some (map (\<lambda>l. cats ! nat (the l)) (filter P ls))) =
      Inr (map (nan_category cats) ls)"
    using put_mask_map[of "\<lambda>l. None" ls P "\<lambda>l. Some (cats ! nat (the l))"]
    by (simp add: o_def e)
  show ?thesis
    unfolding NanHotEncoder_inverse_from_labels_def Let_def ls_def[symmetric] P_def[symmetric]
    by (simp only: b and_then_Inr ndarray.select_convs a)
qed

lemma NanHotEncoder_roundtrip:
  assumes fitted: "priv_categories enc = Some cats"
    and ne: "cats \<noteq> []"
    and known: "set xs \<subseteq> set cats"
  shows "and_then (NanHotEncoder_transform enc (map Some xs))
           (\<lambda>df. NanHotEncoder_inverse enc (df_data df)) = Inr (map Some xs)"
proof -
  let ?n = "length cats"
  define ls where "ls = map (label_of cats) xs"
  have inrange: "list_all (\<lambda>l. 0 \<le> l \<and> l < int ?n) ls"
    using known label_of_present[of _ cats] by (auto simp: list_all_iff ls_def)
  have rows: "map (\<lambda>s. onehot_row ?n (nan_label cats s)) (map Some xs) =
      map (\<lambda>l. eye ?n ! nat l) ls"
    using known by (auto simp: onehot_row_def nan_label_def ls_def)
  have t: "NanHotEncoder_transform enc (map Some xs) =
      Inr \<lparr>df_columns = cats,
           df_data = \<lparr>shape = [length ls] @ [?n], flat = concat (map (\<lambda>l. eye ?n ! nat l) ls)\<rparr>\<rparr>"
    unfolding NanHot_transform_eq[OF fitted] rows by (simp add: ls_def)
  have a: "OneHotEncoder_inverse_to_labels
       \<lparr>shape = [length ls] @ [?n], flat = concat (map (\<lambda>l. eye ?n ! nat l) ls)\<rparr> =
      Inr \<lparr>shape = [length ls], flat = ls\<rparr>"
    unfolding OneHotEncoder_inverse_to_labels_def
    using ne inrange by (intro np_argmax_onehot) simp_all
  have r2: "list_all (\<lambda>l. case l of None \<Rightarrow> True | Some v \<Rightarrow> 0 \<le> v \<and> v < int ?n)
      (flat \<lparr>shape = [length ls], flat = map Some ls\<rparr>)"
    using inrange by (auto simp: list_all_iff)
  have undo: "map (nan_category cats) (map Some ls) = map Some xs"
    using known label_of_present[of _ cats]
    by (auto simp: nan_category_def ls_def subsetD)
  have i: "NanHotEncoder_inverse_from_labels enc \<lparr>shape = [length ls], flat = map Some ls\<rparr> =
      Inr (map Some xs)"
    using NanHot_inverse_from_labels_eq[OF fitted r2]
    by (simp only: ndarray.select_convs undo)
  show ?thesis
    by (simp only: t and_then_Inr DataFrame.select_convs NanHotEncoder_inverse_def a
        ndarray.select_convs i)
qed

lemma NanHot_from_labels_rows:
  assumes "NanHotEncoder_transform_from_labels enc labels = Inr df"
  shows "\<forall>r\<in>set (rows_of (df_data df)). sum_list r = 0 \<or> sum_list r = 1"
proof -
  let ?kept = "map the (boolean_index (flat labels) (map Not (map isnull (flat labels))))"
  from assms have dim: "length (shape labels) \<le> 1"
    by (auto simp: NanHotEncoder_transform_from_labels_def split: if_splits)
  from assms dim obtain encoded where
    base: "OneHotEncoder_transform_from_labels enc (array1 ?kept) = Inr encoded"
    by (cases "OneHotEncoder_transform_from_labels enc (array1 ?kept)")
      (auto simp: NanHotEncoder_transform_from_labels_def Let_def)
  from transform_from_labels_Inr_D[OF base] obtain cats where
    fitted: "priv_categories enc = Some cats" by blast
  from assms dim base fitted obtain rows where
    ma: "mask_assign (prod_list (shape labels)) (map Not (map isnull (flat labels)))
           (rows_of encoded) (replicate (length cats) 0) = Inr rows"
    and df: "pd_DataFrame \<lparr>shape = shape labels @ [length cats], flat = concat rows\<rparr> cats = Inr df"
    by (cases "mask_assign (prod_list (shape labels)) (map Not (map isnull (flat labels)))
           (rows_of encoded) (replicate (length cats) 0)")
      (auto simp: NanHotEncoder_transform_from_labels_def Let_def n_categories_Some
        categories_Some)
  note m = masked_rows[OF base fitted ma]
  have "rows_of (df_data df) = rows"
    using df dim m by (intro frame_rows[where cats = cats and shp = "shape labels"]) auto
  with m(2) show ?thesis by simp
qed

subsection \<open>CatHotEncoder\<close>

lemma code_of_lower: "- 1 \<le> code_of cats x"
  by (induction cats) auto

lemma code_of_absent: "x \<notin> set cats \<Longrightarrow> code_of cats x = - 1"
  by (induction cats) auto

lemma code_of_present:
  "x \<in> set cats \<Longrightarrow> 0 \<le> code_of cats x \<and> code_of cats x < int (length cats) \<and>
     cats ! nat (code_of cats x) = x"
proof (induction cats)
  case Nil
  then show ?case by simp
next
  case (Cons c cs)
  show ?case
  proof (cases "c = x")
    case True
    then show ?thesis by simp
  next
    case False
    with Cons.prems have "x \<in> set cs" by simp
    from Cons.IH[OF this] False show ?thesis
      by (simp add: nat_add_distrib)
  qed
qed

lemma code_of_upper: "code_of cats x < int (length cats)"
  using code_of_present[of x cats] code_of_absent[of x cats] by (cases "x \<in> set cats") auto

lemma code_of_nth: "distinct cats \<Longrightarrow> j < length cats \<Longrightarrow> code_of cats (cats ! j) = int j"
proof (induction cats arbitrary: j)
  case Nil
  then show ?case by simp
next
  case (Cons c cs)
  show ?case
  proof (cases j)
    case 0
    then show ?thesis by simp
  next
    case (Suc k)
    with Cons.prems have k: "k < length cs" "distinct cs" "cs ! k \<noteq> c" by auto
    from Cons.IH[OF k(2) k(1)] k(3) Suc show ?thesis by auto
  qed
qed

lemma recode_range: "list_all (\<lambda>l. - 1 \<le> l \<and> l < int (length cats)) (map (recode cats) vs)"
  by (auto simp: list_all_iff recode_def code_of_lower code_of_upper split: option.splits)

lemma CatHot_transform_from_labels_eq:
  assumes fitted: "priv_categories enc = Some cats"
    and inrange: "list_all (\<lambda>l. - 1 \<le> l \<and> l < int (length cats)) ls"
  shows "CatHotEncoder_transform_from_labels enc \<lparr>shape = [length ls], flat = ls\<rparr> =
     Inr \<lparr>df_columns = cats,
          df_data = \<lparr>shape = [length ls, length cats],
                     flat = concat (map (cat_row (length cats)) ls)\<rparr>\<rparr>"
proof -
  let ?n = "length cats"
  define P where "P = (\<lambda>l::int. \<not> l = - 1)"
  have m: "map Not (map (\<lambda>l. l = - 1) ls) = map P ls" by (simp add: P_def)
  have kr: "list_all (\<lambda>l. 0 \<le> l \<and> l < int ?n) (map (\<lambda>l. l) (filter P ls))"
    using inrange by (auto simp: list_all_iff P_def)
  have e: "map (\<lambda>l. if P l then eye ?n ! nat l else replicate ?n 0) ls = map (cat_row ?n) ls"
    by (rule map_cong) (auto simp: cat_row_def P_def)
  have mo: "and_then (OneHotEncoder_transform_from_labels enc (array1 (filter P ls)))
      (\<lambda>encoded. mask_assign (length ls) (map P ls) (rows_of encoded) (replicate ?n 0)) =
     Inr (map (cat_row ?n) ls)"
    using masked_onehot[OF fitted kr] by (simp add: e)
  have "CatHotEncoder_transform_from_labels enc \<lparr>shape = [length ls], flat = ls\<rparr> =
      and_then (and_then (OneHotEncoder_transform_from_labels enc (array1 (filter P ls)))
        (\<lambda>encoded. mask_assign (length ls) (map P ls) (rows_of encoded) (replicate ?n 0)))
        (\<lambda>rows. pd_DataFrame \<lparr>shape = [length ls] @ [?n], flat = concat rows\<rparr> cats)"
    unfolding CatHotEncoder_transform_from_labels_def
    by (cases "OneHotEncoder_transform_from_labels enc (array1 (filter P ls))")
      (simp_all add: Let_def n_categories_Some[OF fitted] categories_Some[OF fitted] P_def o_def
        boolean_index_map[of ls "\<lambda>l. \<not> l = - 1"])
  also have "\<dots> = Inr \<lparr>df_columns = cats,
          df_data = \<lparr>shape = [length ls, length cats],
                     flat = concat (map (cat_row (length cats)) ls)\<rparr>\<rparr>"
    by (simp only: mo and_then_Inr) (simp add: pd_DataFrame_def)
  finally show ?thesis .
qed

lemma CatHot_transform_eq:
  assumes fitted: "priv_categories enc = Some cats" and d: "distinct cats"
  shows "CatHotEncoder_transform enc s =
     Inr \<lparr>df_columns = cats,
          df_data = \<lparr>shape = [length (cat_codes s), length cats],
                     flat = concat (map (\<lambda>v. cat_row (length cats) (recode cats v)) (cat_values s))\<rparr>\<rparr>"
proof -
  have len: "length (cat_values s) = length (cat_codes s)" by (simp add: cat_values_def)
  have sc: "cat_set_categories s cats =
      Inr \<lparr>cat_categories = cats, cat_codes = map (recode cats) (cat_values s)\<rparr>"
    using d by (simp add: cat_set_categories_def recode_def)
  show ?thesis
    using CatHot_transform_from_labels_eq[OF fitted recode_range, of "cat_values s"]
    by (simp add: CatHotEncoder_transform_def categories_Some[OF fitted] sc array1_def len o_def)
qed

lemma CatHotEncoder_roundtrip:
  assumes fitted: "priv_categories enc = Some cats"
    and ne: "cats \<noteq> []" and d: "distinct cats"
    and vals: "cat_values s = map Some xs" and known: "set xs \<subseteq> set cats"
  shows "and_then (CatHotEncoder_transform enc s) (\<lambda>df. CatHotEncoder_inverse enc (df_data df)) =
     Inr \<lparr>cat_categories = cats, cat_codes = map (code_of cats) xs\<rparr>"
proof -
  let ?n = "length cats"
  define ls where "ls = map (code_of cats) xs"
  have inrange: "list_all (\<lambda>l. 0 \<le> l \<and> l < int ?n) ls"
    using known code_of_present[of _ cats] by (auto simp: list_all_iff ls_def)
  have len: "length (cat_codes s) = length ls"
    using arg_cong[OF vals, of length] by (simp add: cat_values_def ls_def)
  have rows: "map (\<lambda>v. cat_row ?n (recode cats v)) (cat_values s) = map (\<lambda>l. eye ?n ! nat l) ls"
    using inrange by (auto simp: vals cat_row_def recode_def ls_def list_all_iff)
  have t: "CatHotEncoder_transform enc s =
      Inr \<lparr>df_columns = cats,
           df_data = \<lparr>shape = [length ls] @ [?n], flat = concat (map (\<lambda>l. eye ?n ! nat l) ls)\<rparr>\<rparr>"
    by (simp add: CatHot_transform_eq[OF fitted d] rows len)
  have a: "OneHotEncoder_inverse_to_labels
       \<lparr>shape = [length ls] @ [?n], flat = concat (map (\<lambda>l. eye ?n ! nat l) ls)\<rparr> =
      Inr \<lparr>shape = [length ls], flat = ls\<rparr>"
    unfolding OneHotEncoder_inverse_to_labels_def
    using ne inrange by (intro np_argmax_onehot) simp_all
  have f: "from_codes ls cats = Inr \<lparr>cat_categories = cats, cat_codes = ls\<rparr>"
    using d inrange by (auto simp: from_codes_def list_all_iff)
  show ?thesis
    unfolding ls_def[symmetric]
    by (simp only: t and_then_Inr DataFrame.select_convs CatHotEncoder_inverse_def a
        ndarray.select_convs categories_Some[OF fitted] f)
qed

lemma cat_values_roundtrip:
  assumes "set xs \<subseteq> set cats"
  shows "cat_values \<lparr>cat_categories = cats, cat_codes = map (code_of cats) xs\<rparr> = map Some xs"
proof -
  have "\<And>x. x \<in> set xs \<Longrightarrow> code_of cats x \<noteq> - 1 \<and> cats ! nat (code_of cats x) = x"
    using assms code_of_present[of _ cats] by fastforce
  then show ?thesis by (simp add: cat_values_def)
qed

lemma CatHot_from_labels_rows:
  assumes "CatHotEncoder_transform_from_labels enc labels = Inr df"
  shows "\<forall>r\<in>set (rows_of (df_data df)). sum_list r = 0 \<or> sum_list r = 1"
proof -
  let ?kept = "boolean_index (flat labels) (map Not (map (\<lambda>l. l = - 1) (flat labels)))"
  from assms have dim: "length (shape labels) \<le> 1"
    by (auto simp: CatHotEncoder_transform_from_labels_def split: if_splits)
  from assms dim obtain encoded where
    base: "OneHotEncoder_transform_from_labels enc (array1 ?kept) = Inr encoded"
    by (cases "OneHotEncoder_transform_from_labels enc (array1 ?kept)")
      (auto simp: CatHotEncoder_transform_from_labels_def Let_def)
  from transform_from_labels_Inr_D[OF base] obtain cats where
    fitted: "priv_categories enc = Some cats" by blast
  from assms dim base fitted obtain rows where
    ma: "mask_assign (prod_list (shape labels)) (map Not (map (\<lambda>l. l = - 1) (flat labels)))
           (rows_of encoded) (replicate (length cats) 0) = Inr rows"
    and df: "pd_DataFrame \<lparr>shape = shape labels @ [length cats], flat = concat rows\<rparr> cats = Inr df"
    by (cases "mask_assign (prod_list (shape labels)) (map Not (map (\<lambda>l. l = - 1) (flat labels)))
           (rows_of encoded) (replicate (length cats) 0)")
      (auto simp: CatHotEncoder_transform_from_labels_def Let_def n_categories_Some
        categories_Some)
  note m = masked_rows[OF base fitted ma]
  have "rows_of (df_data df) = rows"
    using df dim m by (intro frame_rows[where cats = cats and shp = "shape labels"]) auto
  with m(2) show ?thesis by simp
qed

subsection \<open>Evaluation on explicit arrays\<close>

lemmas eval_array = np_argmax_def last_axis_def rows_of_def upt_rec array1_def
  boolean_index_def isnull_def index_rows_def put_mask_def mask_assign_def Let_def

section \<open>Properties of the map measures\<close>

subsection \<open>Sorting and counting\<close>






subsection \<open>Grid coordinates\<close>

lemma ndindex_length: "length (ndindex s) = prod_list s"
proof (induction s)
  case Nil
  then show ?case by simp
next
  case (Cons n ns)
  have "length (ndindex (n # ns)) = sum_list (map (\<lambda>i. length (ndindex ns)) [0..<n])"
    by (simp add: length_concat o_def)
  also have "\<dots> = n * length (ndindex ns)" by (simp add: sum_list_triv)
  finally show ?case using Cons by simp
qed



lemma ndindex_1: "ndindex [Suc 0] = [[0]]" by simp

lemma ndindex_2: "ndindex [2] = [[0], [1]]" by code_simp

lemma ndindex_3: "ndindex [3] = [[0], [1], [2]]" by code_simp

lemmas eval_umatrix = umatrix_def Let_def index_distance_def squared_distance_def block_at_def
  np_mean_def

text \<open>Coordinates and their positions in row-major order.\<close>

lemma grid_coordinate_Nil [simp]: "grid_coordinate [] c \<longleftrightarrow> c = []"
  by (simp add: grid_coordinate_def)



lemma row_major_Nil [simp]: "row_major [] c = 0"
  by (simp add: row_major_def)









lemma grid_coordinate_append:
  "grid_coordinate ms c \<Longrightarrow> grid_coordinate ns d \<Longrightarrow> grid_coordinate (ms @ ns) (c @ d)"
  by (simp add: grid_coordinate_def list_all2_appendI)




subsection \<open>Rows and broadcasting\<close>





lemma broadcast_rev_Nil2 [simp]: "broadcast_rev xs [] = Some xs"
  by (cases xs) simp_all




subsection \<open>The topographic error of a batch\<close>

text \<open>The result in terms of the intermediate values of the function.\<close>

lemma topographic_error_steps:
  assumes sx: "(shape x = []) = False"
    and bs: "broadcast_shapes (shape weights) (shape x) = Some shp"
    and ds: "map2 (sum_sq_diff np)
               (rows_of \<lparr>shape = shp, flat = broadcast_to weights shp\<rparr>)
               (rows_of \<lparr>shape = shp, flat = broadcast_to x shp\<rparr>) = dsq"
    and hd: "hd (shape x) = n"
    and dv: "length dsq div n = nr"
    and od: "map (\<lambda>k. argsort np (map (\<lambda>q. dsq ! (q * n + k)) [0..<nr])) [0..<n] = order"
    and ms: "take (length (shape weights) - 2) (shape weights) = ms"
    and pk: "concat (map (\<lambda>j. map (\<lambda>col. col ! j) order) [0..<min 2 nr]) = picked"
    and bx: "map (\<lambda>b. unravel_index b ms) picked = b_ix"
    and c1: "0 < n" "length dsq mod n = 0" "ms \<noteq> []" "list_all (\<lambda>b. b < prod_list ms) picked"
      "2 * n \<le> length b_ix"
  shows "topographic_error np weights x r =
     Inr (true_divide np
       (real (sum_list (map (\<lambda>i.
          if norm_int np (map2 (\<lambda>a b. int a - int b) (b_ix ! i) (b_ix ! (i + n))) > r
          then 1 else (0::nat)) [0..<n])))
       (real n))"
  unfolding topographic_error_def Let_def sx if_False hd bs option.case ds dv od ms pk bx
  using c1 by simp



text \<open>What the function raises outside that contract.\<close>

lemma topographic_error_scalar: "shape x = [] \<Longrightarrow> topographic_error np weights x r = Inl IndexError"
  by (simp add: topographic_error_def)

lemma topographic_error_no_broadcast:
  "shape x \<noteq> [] \<Longrightarrow> broadcast_shapes (shape weights) (shape x) = None \<Longrightarrow>
     topographic_error np weights x r = Inl ValueError"
  by (simp add: topographic_error_def)

lemma topographic_error_empty_batch:
  "shape x \<noteq> [] \<Longrightarrow> hd (shape x) = 0 \<Longrightarrow> topographic_error np weights x r = Inl ValueError"
  by (simp add: topographic_error_def Let_def split: option.splits)

subsection \<open>The operations without rounding\<close>



lemma upt2: "[0..<2] = [0, 1::nat]" by code_simp

lemma upt4: "[0..<4] = [0, 1, 2, 3::nat]" by code_simp






text \<open>
  Weights of shape \<open>map_shape + (n_data, f)\<close>, one vector per unit and sample, broadcast
  against the batch as well.
\<close>

lemma te_per_sample_weights:
  "topographic_error exact_ops \<lparr>shape = [2, 2, 1], flat = [0, 5, 3, 1]\<rparr>
     \<lparr>shape = [2, 1], flat = [0, 2]\<rparr> 1 = Inr 0"
proof -
  let ?w = "\<lparr>shape = [2, 2, 1], flat = [0, 5, 3, 1 :: real]\<rparr>"
  let ?x = "\<lparr>shape = [2, 1], flat = [0, 2 :: real]\<rparr>"
  have sx: "(shape ?x = []) = False" by simp
  have bs: "broadcast_shapes (shape ?w) (shape ?x) = Some [2, 2, 1]"
    by (simp add: broadcast_shapes_def)
  have bw: "broadcast_to ?w [2, 2, 1] = [0, 5, 3, 1]" by code_simp
  have bx: "broadcast_to ?x [2, 2, 1] = [0, 2, 0, 2]" by code_simp
  have ds: "map2 (sum_sq_diff exact_ops)
               (rows_of \<lparr>shape = [2, 2, 1], flat = broadcast_to ?w [2, 2, 1]\<rparr>)
               (rows_of \<lparr>shape = [2, 2, 1], flat = broadcast_to ?x [2, 2, 1]\<rparr>) = [0, 9, 9, 1]"
    unfolding bw bx by (simp add: rows_of_def last_axis_def upt4 exact_ops_def squared_distance_def)
  have hd: "hd (shape ?x) = 2" by simp
  have dv: "length [0, 9, 9, 1 :: real] div 2 = 2" by simp
  have od: "map (\<lambda>k. argsort exact_ops (map (\<lambda>q. [0, 9, 9, 1] ! (q * 2 + k)) [0..<2])) [0..<2] =
      [[0, 1], [1, 0]]"
    by (simp add: upt2 exact_ops_def stable_argsort_def)
  have ms: "take (length (shape ?w) - 2) (shape ?w) = [2]" by simp
  have pk: "concat (map (\<lambda>j. map (\<lambda>col. col ! j) [[0, 1], [1, 0 :: nat]]) [0..<min 2 2]) = [0, 1, 1, 0]"
    by (simp add: upt2)
  have ix: "map (\<lambda>b. unravel_index b [2]) [0, 1, 1, 0] = [[0], [1], [1], [0]]" by simp
  show ?thesis
    apply (subst topographic_error_steps[OF sx bs ds hd dv od ms pk ix])
    apply (simp_all add: upt2 exact_ops_def)
    done
qed

section \<open>Round trip\<close>

text \<open>
  C1, as amended. For an encoder holding at least one category and samples that are all
  among its categories (none missing), \<^verbatim>\<open>inverse(transform(samples))\<close> returns the
  samples: the same array for OneHotEncoder, the same Series for NanHotEncoder, and for
  CatHotEncoder a categorical Series over the encoder's categories with the same values,
  which is the input itself when the input's category list is the encoder's.
\<close>

theorem roundtrip_with_categories:
  assumes fitted: "priv_categories enc = Some cats" and ne: "cats \<noteq> []"
  shows "(well_shaped samples \<and> set (flat samples) \<subseteq> set cats \<longrightarrow>
            and_then (OneHotEncoder_transform enc samples) (OneHotEncoder_inverse enc) = Inr samples)
       \<and> (set xs \<subseteq> set cats \<longrightarrow>
            and_then (NanHotEncoder_transform enc (map Some xs))
              (\<lambda>df. NanHotEncoder_inverse enc (df_data df)) = Inr (map Some xs))
       \<and> (distinct cats \<and> valid_categorical s \<and> cat_values s = map Some ys \<and> set ys \<subseteq> set cats \<longrightarrow>
            (\<exists>r. and_then (CatHotEncoder_transform enc s)
                   (\<lambda>df. CatHotEncoder_inverse enc (df_data df)) = Inr r
                 \<and> cat_categories r = cats \<and> cat_values r = cat_values s
                 \<and> (cat_categories s = cats \<longrightarrow> r = s)))"
proof (intro conjI impI)
  assume "well_shaped samples \<and> set (flat samples) \<subseteq> set cats"
  then show "and_then (OneHotEncoder_transform enc samples) (OneHotEncoder_inverse enc) = Inr samples"
    using OneHotEncoder_roundtrip[OF fitted ne] by blast
next
  assume "set xs \<subseteq> set cats"
  then show "and_then (NanHotEncoder_transform enc (map Some xs))
              (\<lambda>df. NanHotEncoder_inverse enc (df_data df)) = Inr (map Some xs)"
    by (rule NanHotEncoder_roundtrip[OF fitted ne])
next
  assume a: "distinct cats \<and> valid_categorical s \<and> cat_values s = map Some ys \<and> set ys \<subseteq> set cats"
  let ?r = "\<lparr>cat_categories = cats, cat_codes = map (code_of cats) ys\<rparr>"
  have rt: "and_then (CatHotEncoder_transform enc s)
      (\<lambda>df. CatHotEncoder_inverse enc (df_data df)) = Inr ?r"
    using a by (intro CatHotEncoder_roundtrip[OF fitted ne]) simp_all
  have vals: "cat_values ?r = cat_values s"
    using a cat_values_roundtrip[of ys cats] by simp
  have same: "?r = s" if eq: "cat_categories s = cats"
  proof -
    have v: "\<forall>c\<in>set (cat_codes s). - 1 \<le> c \<and> c < int (length cats)"
      using a eq by (simp add: valid_categorical_def list_all_iff)
    have nn: "\<forall>c\<in>set (cat_codes s). c \<noteq> - 1"
    proof
      fix c assume c: "c \<in> set (cat_codes s)"
      show "c \<noteq> - 1"
      proof
        assume "c = - 1"
        with c have "None \<in> set (cat_values s)" by (force simp: cat_values_def)
        with a show False by auto
      qed
    qed
    have ys: "ys = map (\<lambda>c. cats ! nat c) (cat_codes s)"
    proof -
      have "map Some ys = map (\<lambda>c. Some (cats ! nat c)) (cat_codes s)"
        using a nn eq by (simp add: cat_values_def cong: map_cong)
      then have "map the (map Some ys) = map the (map (\<lambda>c. Some (cats ! nat c)) (cat_codes s))"
        by simp
      then show ?thesis by (simp add: o_def)
    qed
    have "map (code_of cats) ys = cat_codes s"
      unfolding ys map_map o_def
    proof (rule map_idI)
      fix c assume c: "c \<in> set (cat_codes s)"
      with v nn have "0 \<le> c" "nat c < length cats" by force+
      then show "code_of cats (cats ! nat c) = c"
        using a code_of_nth[of cats "nat c"] by simp
    qed
    then show ?thesis using eq by simp
  qed
  show "\<exists>r. and_then (CatHotEncoder_transform enc s)
                   (\<lambda>df. CatHotEncoder_inverse enc (df_data df)) = Inr r
                 \<and> cat_categories r = cats \<and> cat_values r = cat_values s
                 \<and> (cat_categories s = cats \<longrightarrow> r = s)"
    using rt vals same by (intro exI[of _ ?r]) simp
qed

text \<open>
  The hypotheses of C1 hold for the three encoders fitted on \<open>a, b, c, d\<close>, and the
  round trip returns the input there.
\<close>

theorem roundtrip_with_categories_witness:
  "NanHotEncoder_fit encoder_init (array1 (map Some abcd)) = abcd_encoder
   \<and> CatHotEncoder_fit encoder_init \<lparr>cat_categories = abcd, cat_codes = [2, 3, 0]\<rparr> = abcd_encoder
   \<and> and_then (OneHotEncoder_transform abcd_encoder (array1 [''a'', ''c'', ''d'', ''a'']))
        (OneHotEncoder_inverse abcd_encoder) = Inr (array1 [''a'', ''c'', ''d'', ''a''])
   \<and> and_then (NanHotEncoder_transform abcd_encoder (map Some [''c'', ''d'', ''a'']))
        (\<lambda>df. NanHotEncoder_inverse abcd_encoder (df_data df)) = Inr (map Some [''c'', ''d'', ''a''])
   \<and> and_then (CatHotEncoder_transform abcd_encoder \<lparr>cat_categories = abcd, cat_codes = [2, 3, 0]\<rparr>)
        (\<lambda>df. CatHotEncoder_inverse abcd_encoder (df_data df)) =
       Inr \<lparr>cat_categories = abcd, cat_codes = [2, 3, 0]\<rparr>"
proof -
  have ne: "abcd \<noteq> []" by (simp add: abcd_def)
  have fits: "NanHotEncoder_fit encoder_init (array1 (map Some abcd)) = abcd_encoder"
    "CatHotEncoder_fit encoder_init \<lparr>cat_categories = abcd, cat_codes = [2, 3, 0]\<rparr> = abcd_encoder"
    by (simp_all add: NanHotEncoder_fit_def CatHotEncoder_fit_def abcd_encoder_def dropna_def
        boolean_index_def isnull_def array1_def abcd_def OneHotEncoder_fit_def)
  have h1: "well_shaped (array1 [''a'', ''c'', ''d'', ''a'']) \<and>
      set (flat (array1 [''a'', ''c'', ''d'', ''a''])) \<subseteq> set abcd"
    by (simp add: well_shaped_def array1_def abcd_def)
  have h2: "set [''c'', ''d'', ''a''] \<subseteq> set abcd" by (simp add: abcd_def)
  have h3: "distinct abcd \<and> valid_categorical \<lparr>cat_categories = abcd, cat_codes = [2, 3, 0]\<rparr> \<and>
      cat_values \<lparr>cat_categories = abcd, cat_codes = [2, 3, 0]\<rparr> = map Some [''c'', ''d'', ''a''] \<and>
      set [''c'', ''d'', ''a''] \<subseteq> set abcd"
    by (simp add: abcd_def valid_categorical_def cat_values_def)
  note rt = roundtrip_with_categories[OF abcd_encoder_categories ne,
      of "array1 [''a'', ''c'', ''d'', ''a'']" "[''c'', ''d'', ''a'']"
        "\<lparr>cat_categories = abcd, cat_codes = [2, 3, 0]\<rparr>" "[''c'', ''d'', ''a'']"]
  from rt h1 have c1: "and_then (OneHotEncoder_transform abcd_encoder (array1 [''a'', ''c'', ''d'', ''a'']))
        (OneHotEncoder_inverse abcd_encoder) = Inr (array1 [''a'', ''c'', ''d'', ''a''])"
    by blast
  from rt h2 have c2: "and_then (NanHotEncoder_transform abcd_encoder (map Some [''c'', ''d'', ''a'']))
        (\<lambda>df. NanHotEncoder_inverse abcd_encoder (df_data df)) = Inr (map Some [''c'', ''d'', ''a''])"
    by blast
  from rt h3 obtain r where r: "and_then (CatHotEncoder_transform abcd_encoder \<lparr>cat_categories = abcd, cat_codes = [2, 3, 0]\<rparr>)
        (\<lambda>df. CatHotEncoder_inverse abcd_encoder (df_data df)) = Inr r"
      "cat_categories \<lparr>cat_categories = abcd, cat_codes = [2, 3, 0]\<rparr> = abcd \<longrightarrow>
         r = \<lparr>cat_categories = abcd, cat_codes = [2, 3, 0]\<rparr>"
    by blast
  from r have c3: "and_then (CatHotEncoder_transform abcd_encoder \<lparr>cat_categories = abcd, cat_codes = [2, 3, 0]\<rparr>)
        (\<lambda>df. CatHotEncoder_inverse abcd_encoder (df_data df)) =
       Inr \<lparr>cat_categories = abcd, cat_codes = [2, 3, 0]\<rparr>"
    by simp
  show ?thesis using fits c1 c2 c3 by blast
qed

text \<open>
  C1 as stated fails for an encoder fitted on an empty array: the empty sample array is
  drawn from its (empty) category set, \<^verbatim>\<open>transform\<close> returns a \<open>0 \<times> 0\<close> matrix and
  \<^verbatim>\<open>np.argmax\<close> over its last axis, of length 0, raises ValueError.
\<close>

theorem roundtrip_empty_categories:
  "categories (OneHotEncoder_fit encoder_init (array1 ([] :: string list))) = Inr []
   \<and> well_shaped (array1 ([] :: string list))
   \<and> OneHotEncoder_transform (OneHotEncoder_fit encoder_init (array1 ([] :: string list))) (array1 [])
       = Inr \<lparr>shape = [0, 0], flat = []\<rparr>
   \<and> and_then
        (OneHotEncoder_transform (OneHotEncoder_fit encoder_init (array1 ([] :: string list))) (array1 []))
        (OneHotEncoder_inverse (OneHotEncoder_fit encoder_init (array1 [])))
       = Inl ValueError"
  by (simp add: categories_def n_categories_def OneHotEncoder_fit_def encoder_init_def array1_def
      np_unique_def well_shaped_def OneHotEncoder_transform_def
      OneHotEncoder_transform_to_labels_def OneHotEncoder_transform_from_labels_def
      scatter_labels_def argwhere_eq_def index_rows_def eye_def OneHotEncoder_inverse_def
      OneHotEncoder_inverse_to_labels_def np_argmax_def last_axis_def)

section \<open>Defaults of the base encoder\<close>

text \<open>
  C5. On a fitted OneHotEncoder, \<^verbatim>\<open>transform_to_labels\<close> returns (it raises nothing)
  an array of the samples' shape in which every sample that is not among the categories
  has the label 0; and \<^verbatim>\<open>inverse_to_labels\<close>, on an array whose rows have at least
  one entry, returns one label per row, 0 for every all-zero row.
\<close>

theorem default_to_first_category:
  assumes fitted: "priv_categories enc = Some cats"
  shows "(\<exists>labels. OneHotEncoder_transform_to_labels enc samples = Inr labels
            \<and> shape labels = shape samples
            \<and> length (flat labels) = length (flat samples)
            \<and> (\<forall>i<length (flat samples). flat samples ! i \<notin> set cats \<longrightarrow> flat labels ! i = 0))
       \<and> (well_shaped encoded \<and> 0 < last_axis encoded \<longrightarrow>
            (\<exists>labels. OneHotEncoder_inverse_to_labels encoded = Inr labels
               \<and> shape labels = butlast (shape encoded)
               \<and> length (flat labels) = length (rows_of encoded)
               \<and> (\<forall>i<length (rows_of encoded).
                     (\<forall>v\<in>set (rows_of encoded ! i). v = (0::nat)) \<longrightarrow> flat labels ! i = 0)))"
proof (intro conjI impI)
  show "\<exists>labels. OneHotEncoder_transform_to_labels enc samples = Inr labels
            \<and> shape labels = shape samples
            \<and> length (flat labels) = length (flat samples)
            \<and> (\<forall>i<length (flat samples). flat samples ! i \<notin> set cats \<longrightarrow> flat labels ! i = 0)"
    by (simp add: transform_to_labels_eq[OF fitted] label_of_absent)
next
  assume a: "well_shaped encoded \<and> 0 < last_axis encoded"
  let ?labels = "\<lparr>shape = butlast (shape encoded),
                  flat = map (\<lambda>r. int (argmax_row r)) (rows_of encoded)\<rparr>"
  have eq: "OneHotEncoder_inverse_to_labels encoded = Inr ?labels"
    using a by (simp add: OneHotEncoder_inverse_to_labels_def np_argmax_def)
  have zero: "\<forall>i<length (rows_of encoded).
      (\<forall>v\<in>set (rows_of encoded ! i). v = 0) \<longrightarrow> flat ?labels ! i = 0"
  proof (intro allI impI)
    fix i assume i: "i < length (rows_of encoded)" and z: "\<forall>v\<in>set (rows_of encoded ! i). v = 0"
    have "length (rows_of encoded ! i) = last_axis encoded"
      using a i by (intro rows_of_row_length) simp_all
    with a have "rows_of encoded ! i \<noteq> []" by auto
    from argmax_row_all_zero[OF this z] i show "flat ?labels ! i = 0" by simp
  qed
  show "\<exists>labels. OneHotEncoder_inverse_to_labels encoded = Inr labels
               \<and> shape labels = butlast (shape encoded)
               \<and> length (flat labels) = length (rows_of encoded)
               \<and> (\<forall>i<length (rows_of encoded).
                     (\<forall>v\<in>set (rows_of encoded ! i). v = (0::nat)) \<longrightarrow> flat labels ! i = 0)"
    using eq zero by (intro exI[of _ ?labels]) simp
qed

text \<open>
  On the encoder fitted on \<open>a, b, c, d\<close>: the unseen sample \<open>x\<close> gets the label 0,
  and the all-zero row is inverted to 0.
\<close>

theorem default_to_first_category_witness:
  "OneHotEncoder_transform_to_labels abcd_encoder (array1 [''c'', ''x'', ''b'']) =
     Inr \<lparr>shape = [3], flat = [2, 0, 1]\<rparr>
   \<and> OneHotEncoder_inverse_to_labels \<lparr>shape = [2, 4], flat = [0, 0, 0, 0, 0, 0, 1, 0 :: nat]\<rparr> =
     Inr \<lparr>shape = [2], flat = [0, 2]\<rparr>"
proof -
  let ?s = "array1 [''c'', ''x'', ''b'']"
  let ?e = "\<lparr>shape = [2, 4], flat = [0, 0, 0, 0, 0, 0, 1, 0 :: nat]\<rparr>"
  note t = default_to_first_category[OF abcd_encoder_categories, of ?s ?e]
  have w: "well_shaped ?e \<and> 0 < last_axis ?e" by (simp add: well_shaped_def last_axis_def)
  from t obtain l1 where l1: "OneHotEncoder_transform_to_labels abcd_encoder ?s = Inr l1"
    "shape l1 = shape ?s" "length (flat l1) = length (flat ?s)"
    "\<forall>i<length (flat ?s). flat ?s ! i \<notin> set abcd \<longrightarrow> flat l1 ! i = 0"
    by blast
  from l1(4) have "flat l1 ! 1 = 0" by (simp add: array1_def abcd_def)
  have a: "OneHotEncoder_transform_to_labels abcd_encoder ?s = Inr \<lparr>shape = [3], flat = [2, 0, 1]\<rparr>"
    by (simp add: transform_to_labels_eq[OF abcd_encoder_categories] array1_def label_of_def abcd_def
        upt_rec)
  from t w obtain l2 where l2: "OneHotEncoder_inverse_to_labels ?e = Inr l2"
    "\<forall>i<length (rows_of ?e). (\<forall>v\<in>set (rows_of ?e ! i). v = 0) \<longrightarrow> flat l2 ! i = 0"
    by blast
  have b: "OneHotEncoder_inverse_to_labels ?e = Inr \<lparr>shape = [2], flat = [0, 2]\<rparr>"
    by (simp add: OneHotEncoder_inverse_to_labels_def np_argmax_def last_axis_def rows_of_def
        upt_rec)
  show ?thesis using a b l1 l2 by simp
qed

section \<open>Ties in a row\<close>

text \<open>
  C10. For a row with at least one entry, \<^verbatim>\<open>inverse_to_labels\<close> returns the smallest
  position that holds the row's maximum, so a row with several maximal entries (more
  than one 1) gets the earliest of them, and \<^verbatim>\<open>inverse\<close> of a fitted OneHotEncoder
  returns the category at that position, with no error.
\<close>

theorem argmax_ties_first:
  assumes ne: "row \<noteq> []"
  shows "argmax_row row < length row
       \<and> row ! argmax_row row = Max (set row)
       \<and> (\<forall>j<length row. row ! j = Max (set row) \<longrightarrow> argmax_row row \<le> j)
       \<and> OneHotEncoder_inverse_to_labels \<lparr>shape = [1, length row], flat = row\<rparr> =
           Inr \<lparr>shape = [1], flat = [int (argmax_row row)]\<rparr>
       \<and> (priv_categories enc = Some cats \<and> length cats = length row \<longrightarrow>
            OneHotEncoder_inverse enc \<lparr>shape = [1, length row], flat = row\<rparr> =
              Inr \<lparr>shape = [1], flat = [cats ! argmax_row row]\<rparr>)"
proof (intro conjI impI allI)
  show "argmax_row row < length row" by (rule argmax_row_spec(1)[OF ne])
  show "row ! argmax_row row = Max (set row)" by (rule argmax_row_Max[OF ne])
  show "argmax_row row \<le> j" if "j < length row" "row ! j = Max (set row)" for j
    using that by (rule argmax_row_least[OF ne])
  show "OneHotEncoder_inverse_to_labels \<lparr>shape = [1, length row], flat = row\<rparr> =
           Inr \<lparr>shape = [1], flat = [int (argmax_row row)]\<rparr>"
    using ne
    by (simp add: OneHotEncoder_inverse_to_labels_def np_argmax_def last_axis_def rows_of_def)
  assume a: "priv_categories enc = Some cats \<and> length cats = length row"
  then have c: "cats \<noteq> []" using ne by auto
  have ws: "well_shaped \<lparr>shape = [1, length row], flat = row\<rparr>" by (simp add: well_shaped_def)
  show "OneHotEncoder_inverse enc \<lparr>shape = [1, length row], flat = row\<rparr> =
              Inr \<lparr>shape = [1], flat = [cats ! argmax_row row]\<rparr>"
    using OneHotEncoder_inverse_eq[OF _ ws _ c, of enc] a
    by (simp add: last_axis_def rows_of_def)
qed

text \<open>
  The row \<open>0, 1, 1, 0\<close> is inverted to \<open>b\<close>, the earlier of the two tied categories.
\<close>

theorem argmax_ties_first_witness:
  "[0, 1, 1, 0 :: nat] \<noteq> []
   \<and> argmax_row [0, 1, 1, 0 :: nat] = 1
   \<and> OneHotEncoder_inverse abcd_encoder \<lparr>shape = [1, 4], flat = [0, 1, 1, 0]\<rparr> =
       Inr \<lparr>shape = [1], flat = [''b'']\<rparr>"
proof -
  have ne: "[0, 1, 1, 0 :: nat] \<noteq> []" by simp
  have v: "argmax_row [0, 1, 1, 0 :: nat] = 1" by simp
  note t = argmax_ties_first[OF ne, of abcd_encoder abcd]
  from t abcd_encoder_categories
  have "OneHotEncoder_inverse abcd_encoder \<lparr>shape = [1, length [0, 1, 1, 0 :: nat]], flat = [0, 1, 1, 0]\<rparr> =
      Inr \<lparr>shape = [1], flat = [abcd ! argmax_row [0, 1, 1, 0 :: nat]]\<rparr>"
    by (simp add: abcd_def)
  then show ?thesis by (simp add: abcd_def eval_nat_numeral)
qed

section \<open>Rows of a one-hot matrix\<close>

text \<open>
  C7. Whenever \<^verbatim>\<open>transform_from_labels\<close> or \<^verbatim>\<open>transform\<close> of one of the three
  encoders returns (for the base encoder on an array whose data fit its shape), every
  row of the matrix it returns sums to 0 or to 1. The three \<^verbatim>\<open>transform\<close>s do return:
  the base one on an encoder with at least one category, the null-aware one on every
  fitted encoder, the categorical one on every encoder with distinct categories.
\<close>

theorem one_hot_row_sums:
  "(well_shaped labels \<and> OneHotEncoder_transform_from_labels enc labels = Inr e \<longrightarrow>
      (\<forall>r\<in>set (rows_of e). sum_list r = 0 \<or> sum_list r = 1))
   \<and> (NanHotEncoder_transform_from_labels enc nan_labels = Inr nf \<longrightarrow>
      (\<forall>r\<in>set (rows_of (df_data nf)). sum_list r = 0 \<or> sum_list r = 1))
   \<and> (CatHotEncoder_transform_from_labels enc codes = Inr cf \<longrightarrow>
      (\<forall>r\<in>set (rows_of (df_data cf)). sum_list r = 0 \<or> sum_list r = 1))
   \<and> (well_shaped samples \<and> OneHotEncoder_transform enc samples = Inr e' \<longrightarrow>
      (\<forall>r\<in>set (rows_of e'). sum_list r = 0 \<or> sum_list r = 1))
   \<and> (NanHotEncoder_transform enc series = Inr nf' \<longrightarrow>
      (\<forall>r\<in>set (rows_of (df_data nf')). sum_list r = 0 \<or> sum_list r = 1))
   \<and> (CatHotEncoder_transform enc cs = Inr cf' \<longrightarrow>
      (\<forall>r\<in>set (rows_of (df_data cf')). sum_list r = 0 \<or> sum_list r = 1))
   \<and> (priv_categories enc = Some cats \<longrightarrow>
        (cats \<noteq> [] \<longrightarrow> (\<exists>m. OneHotEncoder_transform enc samples = Inr m))
      \<and> (\<exists>f. NanHotEncoder_transform enc series = Inr f)
      \<and> (distinct cats \<longrightarrow> (\<exists>f. CatHotEncoder_transform enc cs = Inr f)))"
proof (intro conjI impI)
  assume "well_shaped labels \<and> OneHotEncoder_transform_from_labels enc labels = Inr e"
  then show "\<forall>r\<in>set (rows_of e). sum_list r = 0 \<or> sum_list r = 1"
    using OneHot_from_labels_rows[of labels enc e] by simp
next
  assume "NanHotEncoder_transform_from_labels enc nan_labels = Inr nf"
  then show "\<forall>r\<in>set (rows_of (df_data nf)). sum_list r = 0 \<or> sum_list r = 1"
    by (rule NanHot_from_labels_rows)
next
  assume "CatHotEncoder_transform_from_labels enc codes = Inr cf"
  then show "\<forall>r\<in>set (rows_of (df_data cf)). sum_list r = 0 \<or> sum_list r = 1"
    by (rule CatHot_from_labels_rows)
next
  assume a: "well_shaped samples \<and> OneHotEncoder_transform enc samples = Inr e'"
  then obtain ls where ls: "OneHotEncoder_transform_to_labels enc samples = Inr ls"
    and t: "OneHotEncoder_transform_from_labels enc ls = Inr e'"
    by (cases "OneHotEncoder_transform_to_labels enc samples")
      (auto simp: OneHotEncoder_transform_def)
  from ls obtain cats' where "priv_categories enc = Some cats'"
    by (cases "priv_categories enc")
      (auto simp: OneHotEncoder_transform_to_labels_def categories_def)
  from transform_to_labels_eq[OF this, of samples] ls a have "well_shaped ls"
    by (auto simp: well_shaped_def)
  from OneHot_from_labels_rows[OF this t]
  show "\<forall>r\<in>set (rows_of e'). sum_list r = 0 \<or> sum_list r = 1" by simp
next
  assume "NanHotEncoder_transform enc series = Inr nf'"
  then obtain ls where "NanHotEncoder_transform_from_labels enc ls = Inr nf'"
    by (cases "NanHotEncoder_transform_to_labels enc series")
      (auto simp: NanHotEncoder_transform_def)
  then show "\<forall>r\<in>set (rows_of (df_data nf')). sum_list r = 0 \<or> sum_list r = 1"
    by (rule NanHot_from_labels_rows)
next
  assume "CatHotEncoder_transform enc cs = Inr cf'"
  then obtain ls where "CatHotEncoder_transform_from_labels enc ls = Inr cf'"
    by (cases "categories enc"; cases "cat_set_categories cs (projr (categories enc))")
      (auto simp: CatHotEncoder_transform_def)
  then show "\<forall>r\<in>set (rows_of (df_data cf')). sum_list r = 0 \<or> sum_list r = 1"
    by (rule CatHot_from_labels_rows)
next
  assume f: "priv_categories enc = Some cats"
  show "\<exists>m. OneHotEncoder_transform enc samples = Inr m" if "cats \<noteq> []"
    using OneHotEncoder_transform_eq[OF f that] by simp
  show "\<exists>f. NanHotEncoder_transform enc series = Inr f"
    using NanHot_transform_eq[OF f] by simp
  show "\<exists>f. CatHotEncoder_transform enc cs = Inr f" if "distinct cats"
    using CatHot_transform_eq[OF f that] by simp
qed

text \<open>
  The scenarios of the specification: OneHotEncoder on \<open>a, c, d, a\<close>, NanHotEncoder on
  \<open>NaN, c, d, a\<close>, and CatHotEncoder on the codes \<open>-1, 2\<close>; the rows of the three
  matrices sum to 0 or 1.
\<close>

theorem one_hot_row_sums_witness:
  "OneHotEncoder_transform abcd_encoder (array1 [''a'', ''c'', ''d'', ''a'']) =
     Inr \<lparr>shape = [4, 4], flat = [1, 0, 0, 0,  0, 0, 1, 0,  0, 0, 0, 1,  1, 0, 0, 0]\<rparr>
   \<and> list_all (\<lambda>r. sum_list r = 0 \<or> sum_list r = 1)
       (rows_of \<lparr>shape = [4, 4], flat = [1, 0, 0, 0,  0, 0, 1, 0,  0, 0, 0, 1,  1, 0, 0, 0 :: nat]\<rparr>)
   \<and> NanHotEncoder_transform abcd_encoder [None, Some ''c'', Some ''d'', Some ''a''] =
     Inr \<lparr>df_columns = abcd,
          df_data = \<lparr>shape = [4, 4], flat = [0, 0, 0, 0,  0, 0, 1, 0,  0, 0, 0, 1,  1, 0, 0, 0]\<rparr>\<rparr>
   \<and> list_all (\<lambda>r. sum_list r = 0 \<or> sum_list r = 1)
       (rows_of \<lparr>shape = [4, 4], flat = [0, 0, 0, 0,  0, 0, 1, 0,  0, 0, 0, 1,  1, 0, 0, 0 :: nat]\<rparr>)
   \<and> CatHotEncoder_transform abcd_encoder \<lparr>cat_categories = abcd, cat_codes = [- 1, 2]\<rparr> =
     Inr \<lparr>df_columns = abcd, df_data = \<lparr>shape = [2, 4], flat = [0, 0, 0, 0,  0, 0, 1, 0]\<rparr>\<rparr>
   \<and> list_all (\<lambda>r. sum_list r = 0 \<or> sum_list r = 1)
       (rows_of \<lparr>shape = [2, 4], flat = [0, 0, 0, 0,  0, 0, 1, 0 :: nat]\<rparr>)"
proof -
  let ?s = "array1 [''a'', ''c'', ''d'', ''a'']"
  let ?ns = "[None, Some ''c'', Some ''d'', Some ''a'']"
  let ?cs = "\<lparr>cat_categories = abcd, cat_codes = [- 1, 2]\<rparr>"
  let ?m1 = "\<lparr>shape = [4, 4], flat = [1, 0, 0, 0,  0, 0, 1, 0,  0, 0, 0, 1,  1, 0, 0, 0 :: nat]\<rparr>"
  let ?m2 = "\<lparr>shape = [4, 4], flat = [0, 0, 0, 0,  0, 0, 1, 0,  0, 0, 0, 1,  1, 0, 0, 0 :: nat]\<rparr>"
  let ?m3 = "\<lparr>shape = [2, 4], flat = [0, 0, 0, 0,  0, 0, 1, 0 :: nat]\<rparr>"
  have ne: "abcd \<noteq> []" and d: "distinct abcd" by (simp_all add: abcd_def)
  have t1: "OneHotEncoder_transform abcd_encoder ?s = Inr ?m1"
    by (simp add: OneHotEncoder_transform_eq[OF abcd_encoder_categories ne] array1_def
        label_of_def abcd_def eye_def upt_rec)
  have t2: "NanHotEncoder_transform abcd_encoder ?ns = Inr \<lparr>df_columns = abcd, df_data = ?m2\<rparr>"
    by (simp add: NanHot_transform_eq[OF abcd_encoder_categories] onehot_row_def nan_label_def
        label_of_def abcd_def eye_def upt_rec)
  have t3: "CatHotEncoder_transform abcd_encoder ?cs = Inr \<lparr>df_columns = abcd, df_data = ?m3\<rparr>"
    by (simp add: CatHot_transform_eq[OF abcd_encoder_categories d] cat_row_def recode_def
        cat_values_def abcd_def eye_def upt_rec)
  have ws: "well_shaped ?s" by (simp add: well_shaped_def array1_def)
  note t = one_hot_row_sums[where enc = abcd_encoder and samples = ?s and series = ?ns
      and cs = ?cs and e' = ?m1 and nf' = "\<lparr>df_columns = abcd, df_data = ?m2\<rparr>"
      and cf' = "\<lparr>df_columns = abcd, df_data = ?m3\<rparr>"]
  from t ws t1 have r1: "\<forall>r\<in>set (rows_of ?m1). sum_list r = 0 \<or> sum_list r = 1"
    by blast
  from t t2 have "\<forall>r\<in>set (rows_of (df_data \<lparr>df_columns = abcd, df_data = ?m2\<rparr>)).
       sum_list r = 0 \<or> sum_list r = 1"
    by blast
  then have r2: "\<forall>r\<in>set (rows_of ?m2). sum_list r = 0 \<or> sum_list r = 1"
    by (simp only: DataFrame.select_convs)
  from t t3 have "\<forall>r\<in>set (rows_of (df_data \<lparr>df_columns = abcd, df_data = ?m3\<rparr>)).
       sum_list r = 0 \<or> sum_list r = 1"
    by blast
  then have r3: "\<forall>r\<in>set (rows_of ?m3). sum_list r = 0 \<or> sum_list r = 1"
    by (simp only: DataFrame.select_convs)
  show ?thesis
    using t1 t2 t3 r1 r2 r3 unfolding list_all_iff by blast
qed

section \<open>All-zero rows in the encoders for missing values\<close>

text \<open>
  C2. On the NanHotEncoder fitted on \<open>a, b, c, d\<close>, \<^verbatim>\<open>transform\<close> of two NaN entries
  is two all-zero rows, as the claim says. \<^verbatim>\<open>inverse\<close> of two all-zero rows is the
  first category twice, not two null entries, and it agrees with the base encoder's
  \<^verbatim>\<open>inverse\<close>: \<^verbatim>\<open>inverse\<close> calls \<^verbatim>\<open>inverse_to_labels\<close>, which the class inherits,
  while the method that returns NaN for such rows is spelt \<^verbatim>\<open>inverse_to_lables\<close>.
\<close>

theorem NanHotEncoder_inverse_zero_rows:
  "NanHotEncoder_transform abcd_encoder [None, None] =
     Inr \<lparr>df_columns = abcd, df_data = \<lparr>shape = [2, 4], flat = [0, 0, 0, 0,  0, 0, 0, 0]\<rparr>\<rparr>
   \<and> NanHotEncoder_inverse abcd_encoder \<lparr>shape = [2, 4], flat = [0, 0, 0, 0,  0, 0, 0, 0]\<rparr> =
     Inr [Some ''a'', Some ''a'']
   \<and> OneHotEncoder_inverse abcd_encoder \<lparr>shape = [2, 4], flat = [0, 0, 0, 0,  0, 0, 0, 0]\<rparr> =
     Inr \<lparr>shape = [2], flat = [''a'', ''a'']\<rparr>
   \<and> NanHotEncoder_inverse_to_lables \<lparr>shape = [2, 4], flat = [0, 0, 0, 0,  0, 0, 0, 0]\<rparr> =
     Inr \<lparr>shape = [2], flat = [None, None]\<rparr>"
proof (intro conjI)
  show "NanHotEncoder_transform abcd_encoder [None, None] =
     Inr \<lparr>df_columns = abcd, df_data = \<lparr>shape = [2, 4], flat = [0, 0, 0, 0,  0, 0, 0, 0]\<rparr>\<rparr>"
    by (simp add: NanHot_transform_eq[OF abcd_encoder_categories] onehot_row_def nan_label_def
        abcd_def)
  show "NanHotEncoder_inverse abcd_encoder \<lparr>shape = [2, 4], flat = [0, 0, 0, 0,  0, 0, 0, 0]\<rparr> =
     Inr [Some ''a'', Some ''a'']"
    by (simp add: NanHotEncoder_inverse_def OneHotEncoder_inverse_to_labels_def
        NanHotEncoder_inverse_from_labels_def dropna_def OneHotEncoder_inverse_from_labels_def
        categories_Some[OF abcd_encoder_categories] eval_array abcd_def)
  show "OneHotEncoder_inverse abcd_encoder \<lparr>shape = [2, 4], flat = [0, 0, 0, 0,  0, 0, 0, 0]\<rparr> =
     Inr \<lparr>shape = [2], flat = [''a'', ''a'']\<rparr>"
    by (simp add: OneHotEncoder_inverse_def OneHotEncoder_inverse_to_labels_def
        OneHotEncoder_inverse_from_labels_def
        categories_Some[OF abcd_encoder_categories] eval_array abcd_def)
  show "NanHotEncoder_inverse_to_lables \<lparr>shape = [2, 4], flat = [0, 0, 0, 0,  0, 0, 0, 0]\<rparr> =
     Inr \<lparr>shape = [2], flat = [None, None]\<rparr>"
    by (simp add: NanHotEncoder_inverse_to_lables_def OneHotEncoder_inverse_to_labels_def
        eval_array eval_nat_numeral)
qed

text \<open>
  C6. On the CatHotEncoder with the categories \<open>a, b, c, d\<close>, the codes \<open>-1, 2\<close> are
  encoded as an all-zero row and a row for \<open>c\<close>. \<^verbatim>\<open>inverse_to_labels\<close>, the inherited
  method, maps the all-zero row to 0, and \<^verbatim>\<open>inverse\<close> returns the codes \<open>0, 2\<close>: the
  code \<open>-1\<close> comes back as the first category. The method that returns \<open>-1\<close> is
  spelt \<^verbatim>\<open>inverse_to_lables\<close> and is not the one \<^verbatim>\<open>inverse\<close> calls.
\<close>

theorem CatHotEncoder_inverse_zero_row:
  "CatHotEncoder_transform abcd_encoder \<lparr>cat_categories = abcd, cat_codes = [- 1, 2]\<rparr> =
     Inr \<lparr>df_columns = abcd, df_data = \<lparr>shape = [2, 4], flat = [0, 0, 0, 0,  0, 0, 1, 0]\<rparr>\<rparr>
   \<and> OneHotEncoder_inverse_to_labels \<lparr>shape = [2, 4], flat = [0, 0, 0, 0,  0, 0, 1, 0 :: nat]\<rparr> =
     Inr \<lparr>shape = [2], flat = [0, 2]\<rparr>
   \<and> CatHotEncoder_inverse abcd_encoder \<lparr>shape = [2, 4], flat = [0, 0, 0, 0,  0, 0, 1, 0]\<rparr> =
     Inr \<lparr>cat_categories = abcd, cat_codes = [0, 2]\<rparr>
   \<and> CatHotEncoder_inverse_to_lables \<lparr>shape = [2, 4], flat = [0, 0, 0, 0,  0, 0, 1, 0]\<rparr> =
     Inr \<lparr>shape = [2], flat = [- 1, 2]\<rparr>"
proof (intro conjI)
  have d: "distinct abcd" by (simp add: abcd_def)
  show "CatHotEncoder_transform abcd_encoder \<lparr>cat_categories = abcd, cat_codes = [- 1, 2]\<rparr> =
     Inr \<lparr>df_columns = abcd, df_data = \<lparr>shape = [2, 4], flat = [0, 0, 0, 0,  0, 0, 1, 0]\<rparr>\<rparr>"
    by (simp add: CatHot_transform_eq[OF abcd_encoder_categories d] cat_row_def recode_def
        cat_values_def abcd_def eye_def upt_rec)
  show "OneHotEncoder_inverse_to_labels \<lparr>shape = [2, 4], flat = [0, 0, 0, 0,  0, 0, 1, 0 :: nat]\<rparr> =
     Inr \<lparr>shape = [2], flat = [0, 2]\<rparr>"
    by (simp add: OneHotEncoder_inverse_to_labels_def eval_array)
  show "CatHotEncoder_inverse abcd_encoder \<lparr>shape = [2, 4], flat = [0, 0, 0, 0,  0, 0, 1, 0]\<rparr> =
     Inr \<lparr>cat_categories = abcd, cat_codes = [0, 2]\<rparr>"
    by (simp add: CatHotEncoder_inverse_def OneHotEncoder_inverse_to_labels_def from_codes_def
        categories_Some[OF abcd_encoder_categories] eval_array abcd_def)
  show "CatHotEncoder_inverse_to_lables \<lparr>shape = [2, 4], flat = [0, 0, 0, 0,  0, 0, 1, 0]\<rparr> =
     Inr \<lparr>shape = [2], flat = [- 1, 2]\<rparr>"
    by (simp add: CatHotEncoder_inverse_to_lables_def OneHotEncoder_inverse_to_labels_def
        eval_array eval_nat_numeral)
qed

section \<open>The u-matrix\<close>

text \<open>
  C3. On a map of three units in a row with the weights 0, 3 and 7 and \<open>d = 1\<close>, the
  middle unit has the neighbours at distances 3 and 4: \<^verbatim>\<open>umatrix\<close> stores 5 there, the
  root of \<open>3\<^sup>2 + 4\<^sup>2\<close>, where the mean of the two distances is \<open>7/2\<close>. On a map of
  one unit, which has no neighbour, it stores 0 where the mean over no neighbour is NaN.
\<close>

theorem umatrix_not_mean:
  "umatrix \<lparr>shape = [3, 1, 1], flat = [0, 3, 7]\<rparr> 1 = Inr \<lparr>shape = [3], flat = [3, 5, 4]\<rparr>
   \<and> spec_umatrix_entry \<lparr>shape = [3, 1, 1], flat = [0, 3, 7]\<rparr> 1 [1] = Some (7 / 2)
   \<and> umatrix \<lparr>shape = [1, 1, 1], flat = [2]\<rparr> 1 = Inr \<lparr>shape = [1], flat = [0]\<rparr>
   \<and> spec_umatrix_entry \<lparr>shape = [1, 1, 1], flat = [2]\<rparr> 1 [0] = None"
proof (intro conjI)
  show "umatrix \<lparr>shape = [3, 1, 1], flat = [0, 3, 7]\<rparr> 1 = Inr \<lparr>shape = [3], flat = [3, 5, 4]\<rparr>"
    by (simp add: eval_umatrix ndindex_3 del: ndindex.simps)
  show "spec_umatrix_entry \<lparr>shape = [3, 1, 1], flat = [0, 3, 7]\<rparr> 1 [1] = Some (7 / 2)"
    by (simp add: spec_umatrix_entry_def eval_umatrix ndindex_3 del: ndindex.simps)
  show "umatrix \<lparr>shape = [1, 1, 1], flat = [2]\<rparr> 1 = Inr \<lparr>shape = [1], flat = [0]\<rparr>"
    by (simp add: eval_umatrix ndindex_1 del: ndindex.simps)
  show "spec_umatrix_entry \<lparr>shape = [1, 1, 1], flat = [2]\<rparr> 1 [0] = None"
    by (simp add: spec_umatrix_entry_def eval_umatrix ndindex_1 del: ndindex.simps)
qed

text \<open>
  C4, as amended. For weights whose shape is a map shape of at least one dimension
  followed by two more axes (the units' \<open>(1, n_features)\<close> blocks), \<^verbatim>\<open>umatrix\<close>
  returns an array of exactly the map shape, with one entry per unit.
\<close>

theorem umatrix_shape:
  "shape weights = map_shape @ [k, n_features] \<and> map_shape \<noteq> [] \<longrightarrow>
     (\<exists>u. umatrix weights d = Inr u \<and> shape u = map_shape \<and> well_shaped u)"
proof
  assume a: "shape weights = map_shape @ [k, n_features] \<and> map_shape \<noteq> []"
  then have ms: "take (length (shape weights) - 2) (shape weights) = map_shape" by simp
  show "\<exists>u. umatrix weights d = Inr u \<and> shape u = map_shape \<and> well_shaped u"
    using a unfolding umatrix_def Let_def ms
    by (simp add: well_shaped_def ndindex_length)
qed

text \<open>A map of shape \<open>(2, 3)\<close> with weights of shape \<open>(2, 3, 1, 4)\<close>.\<close>

theorem umatrix_shape_witness:
  "shape \<lparr>shape = [2, 3, 1, 4], flat = replicate 24 (0::real)\<rparr> = [2, 3] @ [1, 4]
   \<and> [2, 3] \<noteq> ([] :: nat list)
   \<and> (\<exists>u. umatrix \<lparr>shape = [2, 3, 1, 4], flat = replicate 24 0\<rparr> 1 = Inr u
          \<and> shape u = [2, 3] \<and> well_shaped u)"
  using umatrix_shape[of "\<lparr>shape = [2, 3, 1, 4], flat = replicate 24 0\<rparr>" "[2, 3]" 1 4 1]
  by simp

text \<open>
  C4 as stated fails: for weights of shape \<open>map_shape + (n_features,)\<close> with the map
  shape \<open>(2, 2)\<close> and one feature, \<^verbatim>\<open>weights.shape[:-2]\<close> is \<open>(2,)\<close> and the output
  has that shape, not \<open>(2, 2)\<close>.
\<close>

theorem umatrix_shape_last_axis_only:
  "shape \<lparr>shape = [2, 2, 1], flat = [0, 0, 3, 4 :: real]\<rparr> = [2, 2] @ [1]
   \<and> umatrix \<lparr>shape = [2, 2, 1], flat = [0, 0, 3, 4]\<rparr> 1 = Inr \<lparr>shape = [2], flat = [5, 5]\<rparr>"
  by (simp add: eval_umatrix ndindex_2 del: ndindex.simps)

section \<open>Topographic error\<close>



section \<open>Not fitted\<close>

text \<open>
  C9. On an encoder as \<^verbatim>\<open>__init__\<close> leaves it (the same for the three classes, whose
  constructors only call the base one), reading \<^verbatim>\<open>categories\<close> or
  \<^verbatim>\<open>n_categories\<close> raises ProgrammingError "Encoder not fitted!"; after the
  \<^verbatim>\<open>fit\<close> of any of the three classes both return, the fitted array and its length.
\<close>

theorem not_fitted_error:
  "categories (encoder_init :: 'a::linorder encoder) = Inl (ProgrammingError ''Encoder not fitted!'')
   \<and> n_categories (encoder_init :: 'a encoder) = Inl (ProgrammingError ''Encoder not fitted!'')
   \<and> categories (OneHotEncoder_fit (enc :: 'a encoder) samples) = Inr (np_unique (flat samples))
   \<and> n_categories (OneHotEncoder_fit enc samples) = Inr (length (np_unique (flat samples)))
   \<and> categories (NanHotEncoder_fit enc with_nulls) = Inr (np_unique (dropna (flat with_nulls)))
   \<and> n_categories (NanHotEncoder_fit enc with_nulls) =
       Inr (length (np_unique (dropna (flat with_nulls))))
   \<and> categories (CatHotEncoder_fit enc series) = Inr (np_unique (cat_categories series))
   \<and> n_categories (CatHotEncoder_fit enc series) = Inr (length (np_unique (cat_categories series)))"
  by (simp add: categories_def n_categories_def encoder_init_def OneHotEncoder_fit_def
      NanHotEncoder_fit_def CatHotEncoder_fit_def array1_def)

end
